theory Spec2Isabelle
  imports Main
begin

section \<open>JavaScript values and strings\<close>

text \<open>
  The request/notification pipeline of \<^verbatim>\<open>static/js/utils.js\<close> (the object \<^verbatim>\<open>Utils\<close>) and the
  toast renderer of \<^verbatim>\<open>static/js/frontend.js\<close>, embedded as functions on an explicit page
  state.

  Strings are byte strings: a JavaScript string is read in its UTF-8 encoding, so the
  ASCII separators and keywords of the code (\<^verbatim>\<open>'; '\<close>, \<^verbatim>\<open>'='\<close>, \<^verbatim>\<open>'csrftoken='\<close>, \<^verbatim>\<open>'POST'\<close>) are
  found at the same places. Numbers are integers: \<open>JNum n\<close> is the number \<open>n\<close>, which the code
  holds as it is when \<open>n\<close> is a safe integer (below \<open>2 ^ 53\<close> in size); a cart count is one.
  A JSON number with a fraction, or one that is no safe integer, is outside this model.
\<close>

datatype jsval =
    JUndefined
  | JNull
  | JBool bool
  | JNum int
  | JStr string
  | JArr "jsval list"
  | JObj "(string \<times> jsval) list"

text \<open>Errors a promise of the pipeline can reject with.\<close>

datatype js_error =
    HTTPError nat          \<comment> \<open>\<^verbatim>\<open>new Error(`HTTP error! status: ${response.status}`)\<close>\<close>
  | SyntaxError            \<comment> \<open>\<^verbatim>\<open>response.json()\<close> on a body that is not JSON\<close>
  | NetworkError           \<comment> \<open>\<^verbatim>\<open>fetch\<close> itself rejects\<close>
  | TypeError              \<comment> \<open>a property read on \<^verbatim>\<open>null\<close>\<close>
  | Thrown jsval           \<comment> \<open>whatever a caller's callback throws\<close>

definition nl :: string where
  "nl = [CHR 0x0A]"

definition sp :: "nat \<Rightarrow> string" where
  "sp n = replicate n (CHR '' '')"

fun digits :: "nat \<Rightarrow> string" where
  "digits n =
     (if n < 10 then [''0123456789'' ! n]
      else digits (n div 10) @ [''0123456789'' ! (n mod 10)])"

declare digits.simps [simp del]

definition safe_integer :: "int \<Rightarrow> bool" where
  "safe_integer n = (- (2 ^ 53) < n \<and> n < 2 ^ 53)"

text \<open>The string of a number that is a safe integer: its decimal digits.\<close>

definition show_int :: "int \<Rightarrow> string" where
  "show_int i = (if i < 0 then ''-'' @ digits (nat (- i)) else digits (nat i))"

fun join_comma :: "string list \<Rightarrow> string" where
  "join_comma [] = []"
| "join_comma [s] = s"
| "join_comma (s # t # ss) = s @ '','' @ join_comma (t # ss)"

text \<open>
  \<^verbatim>\<open>ToString\<close>, as a template literal \<^verbatim>\<open>${v}\<close> applies it. An array joins its elements with
  commas, \<^verbatim>\<open>null\<close> and \<^verbatim>\<open>undefined\<close> elements as the empty string.
\<close>

fun to_string :: "jsval \<Rightarrow> string" where
  "to_string JUndefined = ''undefined''"
| "to_string JNull = ''null''"
| "to_string (JBool b) = (if b then ''true'' else ''false'')"
| "to_string (JNum n) = show_int n"
| "to_string (JStr s) = s"
| "to_string (JArr xs) =
     join_comma (map (\<lambda>x. if x = JNull \<or> x = JUndefined then [] else to_string x) xs)"
| "to_string (JObj kvs) = ''[object Object]''"

text \<open>\<^verbatim>\<open>ToBoolean\<close>: what \<^verbatim>\<open>if (v)\<close> and \<^verbatim>\<open>v || d\<close> test.\<close>

fun truthy :: "jsval \<Rightarrow> bool" where
  "truthy JUndefined = False"
| "truthy JNull = False"
| "truthy (JBool b) = b"
| "truthy (JNum n) = (n \<noteq> 0)"
| "truthy (JStr s) = (s \<noteq> [])"
| "truthy (JArr xs) = True"
| "truthy (JObj kvs) = True"

definition js_or :: "jsval \<Rightarrow> jsval \<Rightarrow> jsval" where
  "js_or a b = (if truthy a then a else b)"

text \<open>
  A property read \<^verbatim>\<open>v.k\<close> for the keys the code reads (\<^verbatim>\<open>success\<close>, \<^verbatim>\<open>cart_count\<close>,
  \<^verbatim>\<open>error\<close>): a \<^verbatim>\<open>TypeError\<close> on \<^verbatim>\<open>null\<close> and \<^verbatim>\<open>undefined\<close>, the member of an object, and
  \<^verbatim>\<open>undefined\<close> on a primitive or an array, which have no such member. An object is held
  as the list of its members, each key once.
\<close>

fun get_prop :: "jsval \<Rightarrow> string \<Rightarrow> js_error + jsval" where
  "get_prop JUndefined k = Inl TypeError"
| "get_prop JNull k = Inl TypeError"
| "get_prop (JObj kvs) k = (case map_of kvs k of None \<Rightarrow> Inr JUndefined | Some v \<Rightarrow> Inr v)"
| "get_prop v k = Inr JUndefined"

text \<open>
  \<^verbatim>\<open>s.startsWith(pre)\<close>, and \<^verbatim>\<open>s.split(sep)\<close> for a separator that is not empty: the pieces
  between the occurrences of \<^verbatim>\<open>sep\<close>, found from the left without overlap.
\<close>

definition startsWith :: "string \<Rightarrow> string \<Rightarrow> bool" where
  "startsWith s pre = (take (length pre) s = pre)"

function split_from :: "string \<Rightarrow> string \<Rightarrow> string \<Rightarrow> string list" where
  "split_from sep acc [] = [rev acc]"
| "split_from sep acc (c # cs) =
     (if sep \<noteq> [] \<and> startsWith (c # cs) sep
      then rev acc # split_from sep [] (drop (length sep) (c # cs))
      else split_from sep (c # acc) cs)"
  by pat_completeness auto
termination
  by (relation "measure (\<lambda>(sep, acc, s). length s)") (auto simp: neq_Nil_conv)

definition split_str :: "string \<Rightarrow> string \<Rightarrow> string list" where
  "split_str s sep = split_from sep [] s"

text \<open>
  \<^verbatim>\<open>s.toUpperCase()\<close>, exact wherever its result is made of ASCII characters: an ASCII
  letter becomes its capital, and so do, by two or three, the letters outside ASCII whose
  upper case is made of ASCII letters (in UTF-8: sharp s, dotless i, long s and the
  ligatures ff, fi, fl, ffi, ffl, long-s-t and st). Every other character is kept as it is:
  where the code changes one, it puts another character outside ASCII in its place.
\<close>

definition upper_char :: "char \<Rightarrow> char" where
  "upper_char c =
     (let n = (of_char c :: nat) in if 97 \<le> n \<and> n \<le> 122 then char_of (n - 32) else c)"

definition upper_special2 :: "char \<Rightarrow> char \<Rightarrow> string option" where
  "upper_special2 a b =
     (if a = CHR 0xC3 \<and> b = CHR 0x9F then Some ''SS''
      else if a = CHR 0xC4 \<and> b = CHR 0xB1 then Some ''I''
      else if a = CHR 0xC5 \<and> b = CHR 0xBF then Some ''S''
      else None)"

definition upper_special3 :: "char \<Rightarrow> char \<Rightarrow> char \<Rightarrow> string option" where
  "upper_special3 a b c =
     (if a = CHR 0xEF \<and> b = CHR 0xAC
      then (if c = CHR 0x80 then Some ''FF''
            else if c = CHR 0x81 then Some ''FI''
            else if c = CHR 0x82 then Some ''FL''
            else if c = CHR 0x83 then Some ''FFI''
            else if c = CHR 0x84 then Some ''FFL''
            else if c = CHR 0x85 \<or> c = CHR 0x86 then Some ''ST''
            else None)
      else None)"

fun toUpperCase :: "string \<Rightarrow> string" where
  "toUpperCase (a # b # c # cs) =
     (case upper_special3 a b c of
        Some u \<Rightarrow> u @ toUpperCase cs
      | None \<Rightarrow>
          (case upper_special2 a b of
             Some u \<Rightarrow> u @ toUpperCase (c # cs)
           | None \<Rightarrow> upper_char a # toUpperCase (b # c # cs)))"
| "toUpperCase [a, b] =
     (case upper_special2 a b of Some u \<Rightarrow> u | None \<Rightarrow> [upper_char a, upper_char b])"
| "toUpperCase [a] = [upper_char a]"
| "toUpperCase [] = []"

text \<open>
  \<^verbatim>\<open>document.cookie\<close> for the cookies of the page, each with its name and value: the entries
  \<^verbatim>\<open>name=value\<close> with \<^verbatim>\<open>; \<close> between them.
\<close>

fun join_entries :: "string list \<Rightarrow> string" where
  "join_entries [] = []"
| "join_entries [r] = r"
| "join_entries (r # r' # rs) = r @ ''; '' @ join_entries (r' # rs)"

definition cookie_entry :: "string \<times> string \<Rightarrow> string" where
  "cookie_entry kv = fst kv @ ''='' @ snd kv"

definition cookie_string :: "(string \<times> string) list \<Rightarrow> string" where
  "cookie_string jar = join_entries (map cookie_entry jar)"

text \<open>
  \<^verbatim>\<open>ToNumber\<close>, which \<^verbatim>\<open>count > 0\<close> applies to \<^verbatim>\<open>count\<close>; \<open>None\<close> is \<^verbatim>\<open>NaN\<close>. A string is read
  between ASCII white space as a decimal integer numeral with or without a sign, or as a
  numeral with one of the prefixes \<^verbatim>\<open>0x\<close>, \<^verbatim>\<open>0o\<close> and \<^verbatim>\<open>0b\<close>, the empty string as 0. The numerals
  that are not integers (with a fraction or an exponent, \<^verbatim>\<open>Infinity\<close>) and the white space
  outside ASCII are outside this model, as the numbers that are not integers are. An
  array or an object is converted through its string.
\<close>

definition is_space :: "char \<Rightarrow> bool" where
  "is_space c = (c \<in> set [CHR 0x09, CHR 0x0A, CHR 0x0B, CHR 0x0C, CHR 0x0D, CHR '' ''])"

definition trim :: "string \<Rightarrow> string" where
  "trim s = rev (dropWhile is_space (rev (dropWhile is_space s)))"

definition digit_val :: "nat \<Rightarrow> char \<Rightarrow> nat option" where
  "digit_val radix c =
     (let n = (of_char c :: nat);
          v = (if 48 \<le> n \<and> n \<le> 57 then n - 48
               else if 97 \<le> n \<and> n \<le> 102 then n - 87
               else if 65 \<le> n \<and> n \<le> 70 then n - 55
               else 16)
      in if v < radix then Some v else None)"

fun parse_digits :: "nat \<Rightarrow> nat \<Rightarrow> string \<Rightarrow> nat option" where
  "parse_digits radix acc [] = Some acc"
| "parse_digits radix acc (c # cs) =
     (case digit_val radix c of
        None \<Rightarrow> None
      | Some d \<Rightarrow> parse_digits radix (radix * acc + d) cs)"

definition parse_nat :: "nat \<Rightarrow> string \<Rightarrow> nat option" where
  "parse_nat radix s = (if s = [] then None else parse_digits radix 0 s)"

definition string_to_number :: "string \<Rightarrow> int option" where
  "string_to_number s =
     (case trim s of
        [] \<Rightarrow> Some 0
      | c # cs \<Rightarrow>
          if c = CHR ''-'' then map_option (\<lambda>n. - int n) (parse_nat 10 cs)
          else if c = CHR ''+'' then map_option int (parse_nat 10 cs)
          else if take 2 (c # cs) \<in> set [''0x'', ''0X''] then map_option int (parse_nat 16 (tl cs))
          else if take 2 (c # cs) \<in> set [''0o'', ''0O''] then map_option int (parse_nat 8 (tl cs))
          else if take 2 (c # cs) \<in> set [''0b'', ''0B''] then map_option int (parse_nat 2 (tl cs))
          else map_option int (parse_nat 10 (c # cs)))"

fun to_number :: "jsval \<Rightarrow> int option" where
  "to_number JUndefined = None"
| "to_number JNull = Some 0"
| "to_number (JBool b) = Some (if b then 1 else 0)"
| "to_number (JNum n) = Some n"
| "to_number (JStr s) = string_to_number s"
| "to_number v = string_to_number (to_string v)"

definition js_gt_zero :: "jsval \<Rightarrow> bool" where
  "js_gt_zero v = (case to_number v of None \<Rightarrow> False | Some n \<Rightarrow> n > 0)"

section \<open>The page\<close>

text \<open>
  What the pipeline reads and writes of the document: the cookie string, the value of the
  first element named \<^verbatim>\<open>csrfmiddlewaretoken\<close> (if there is one), the notification nodes
  appended to \<^verbatim>\<open>document.body\<close>, the toast container (absent until the first toast), the
  first \<^verbatim>\<open>.cart-badge\<close> element (if there is one), and the pending timers. A node is known
  by \<open>nid\<close>, the count of nodes created before it. \<open>remove_calls\<close> records every call of
  \<^verbatim>\<open>remove()\<close> on a notification or a toast, in order, and \<open>shown_toasts\<close> every toast handed
  to Bootstrap by \<^verbatim>\<open>new bootstrap.Toast(toast, { delay: d }).show()\<close>, with its delay.
\<close>

record node =
  nid :: nat
  className :: string
  innerHTML :: string

record badge =
  textContent :: string
  display :: string

datatype callback =
    AutoClose nat       \<comment> \<open>the arrow function \<^verbatim>\<open>showNotification\<close> passes to \<^verbatim>\<open>setTimeout\<close>\<close>

record page =
  cookie :: string
  csrf_field :: "string option"
  body_children :: "node list"
  toast_container :: "node list option"
  cart_badge :: "badge option"
  now :: nat
  timers :: "(nat \<times> callback) list"
  next_id :: nat
  remove_calls :: "nat list"
  shown_toasts :: "(nat \<times> nat) list"

section \<open>Utils.showNotification\<close>

definition notification_html :: "string \<Rightarrow> string" where
  \<open>notification_html message =
     nl @ sp 12 @ ''<div class="notification-content">'' @
     nl @ sp 16 @ ''<span class="notification-message">'' @ message @ ''</span>'' @
     nl @ sp 16 @ ''<button class="notification-close" onclick="this.parentElement.parentElement.remove()">&times;</button>'' @
     nl @ sp 12 @ ''</div>'' @
     nl @ sp 8\<close>

text \<open>
  \<^verbatim>\<open>showNotification(message, type = 'info')\<close>: a new \<^verbatim>\<open>div\<close> with class
  \<^verbatim>\<open>notification <type>\<close> whose markup holds the message as it is, appended to the body, and
  a timer of 5000 ms for its removal. The handle of the timer is dropped.
\<close>

definition showNotification :: "jsval \<Rightarrow> jsval \<Rightarrow> page \<Rightarrow> page" where
  "showNotification message type0 p =
     (let type = (if type0 = JUndefined then JStr ''info'' else type0);
          notification =
            \<lparr>nid = next_id p,
             className = ''notification '' @ to_string type,
             innerHTML = notification_html (to_string message)\<rparr>
      in p\<lparr>body_children := body_children p @ [notification],
           timers := timers p @ [(now p + 5000, AutoClose (nid notification))],
           next_id := Suc (next_id p)\<rparr>)"

section \<open>Utils.getCsrfToken\<close>

text \<open>
  The cookie first: the first entry of \<^verbatim>\<open>document.cookie\<close> that starts with
  \<^verbatim>\<open>csrftoken=\<close>, of which the piece after the first \<^verbatim>\<open>=\<close> (up to the next one) is returned;
  then the value of the hidden field; else \<^verbatim>\<open>null\<close>, here \<open>None\<close>. (An entry that starts
  with \<^verbatim>\<open>csrftoken=\<close> always splits into two pieces at least; \<open>None\<close> stands for the
  \<^verbatim>\<open>undefined\<close> of a missing second piece too.)
\<close>

definition getCsrfToken :: "page \<Rightarrow> string option" where
  "getCsrfToken p =
     (case find (\<lambda>row. startsWith row ''csrftoken='') (split_str (cookie p) ''; '') of
        Some cookieValue \<Rightarrow>
          (case split_str cookieValue ''='' of a # b # rest \<Rightarrow> Some b | _ \<Rightarrow> None)
      | None \<Rightarrow>
          (case csrf_field p of Some v \<Rightarrow> Some v | None \<Rightarrow> None))"

section \<open>Utils.ajax\<close>

datatype body = JSON_stringify jsval | FormData "(string \<times> string) list"

text \<open>
  The options of a call: each key is there or not. \<^verbatim>\<open>method\<close> is a string and \<^verbatim>\<open>headers\<close> a
  plain object from names to strings when they are there, as \<^verbatim>\<open>fetch\<close> takes them.
\<close>

record options =
  opt_method :: "string option"
  opt_headers :: "(string \<rightharpoonup> string) option"
  opt_body :: "body option"

record request =
  url :: string
  req_method :: string
  req_headers :: "string \<rightharpoonup> string"
  req_body :: "body option"

definition defaultHeaders :: "string \<rightharpoonup> string" where
  "defaultHeaders = [''X-Requested-With'' \<mapsto> ''XMLHttpRequest'']"

text \<open>
  What \<^verbatim>\<open>ajax\<close> hands to \<^verbatim>\<open>fetch\<close>: \<^verbatim>\<open>{ ...defaultOptions, ...options }\<close> takes each key of
  \<^verbatim>\<open>options\<close> whole, \<^verbatim>\<open>headers\<close> too, and the default only for a key that \<^verbatim>\<open>options\<close> lacks.
  Then, for the method \<^verbatim>\<open>POST\<close> (in any case of the letters), a token that is found and not
  empty is stored under \<^verbatim>\<open>X-CSRFToken\<close>.
\<close>

definition ajax_request :: "string \<Rightarrow> options \<Rightarrow> page \<Rightarrow> request" where
  "ajax_request u options p =
     (let method = (case opt_method options of None \<Rightarrow> ''GET'' | Some m \<Rightarrow> m);
          headers = (case opt_headers options of None \<Rightarrow> defaultHeaders | Some h \<Rightarrow> h);
          headers' =
            (if toUpperCase method = ''POST''
             then (case getCsrfToken p of
                     Some csrfToken \<Rightarrow>
                       if csrfToken \<noteq> [] then headers(''X-CSRFToken'' \<mapsto> csrfToken)
                       else headers
                   | None \<Rightarrow> headers)
             else headers)
      in \<lparr>url = u, req_method = method, req_headers = headers', req_body = opt_body options\<rparr>)"

text \<open>
  The answer of the network: \<^verbatim>\<open>fetch\<close> rejects, or resolves with a response, whose body
  parses as JSON or does not (\<open>None\<close>). \<^verbatim>\<open>response.ok\<close> is a status from 200 to 299.
\<close>

record response =
  status :: nat
  json :: "jsval option"

datatype fetch_result = FetchRejected | FetchResponse response

definition ok :: "response \<Rightarrow> bool" where
  "ok r = (200 \<le> status r \<and> status r \<le> 299)"

datatype promise = Fulfilled jsval | Rejected js_error

text \<open>The \<^verbatim>\<open>.then\<close> handler of \<^verbatim>\<open>ajax\<close>: throws on a status that is not ok, else parses the body.\<close>

definition ajax_then :: "fetch_result \<Rightarrow> js_error + jsval" where
  "ajax_then r =
     (case r of
        FetchRejected \<Rightarrow> Inl NetworkError
      | FetchResponse resp \<Rightarrow>
          if \<not> ok resp then Inl (HTTPError (status resp))
          else (case json resp of None \<Rightarrow> Inl SyntaxError | Some v \<Rightarrow> Inr v))"

definition msg_request_failed :: string where
  "msg_request_failed =
     [CHR 0xE8, CHR 0xAF, CHR 0xB7, CHR 0xE6, CHR 0xB1, CHR 0x82, CHR 0xE5, CHR 0xA4,
      CHR 0xB1, CHR 0xE8, CHR 0xB4, CHR 0xA5, CHR 0xEF, CHR 0xBC, CHR 0x8C, CHR 0xE8,
      CHR 0xAF, CHR 0xB7, CHR 0xE9, CHR 0x87, CHR 0x8D, CHR 0xE8, CHR 0xAF, CHR 0x95]"

text \<open>
  The promise \<^verbatim>\<open>ajax\<close> returns, settled on the page as it is when the answer arrives: the
  \<^verbatim>\<open>.catch\<close> handler shows the notification and throws the error again.
\<close>

definition ajax_settle :: "fetch_result \<Rightarrow> page \<Rightarrow> promise \<times> page" where
  "ajax_settle r p =
     (case ajax_then r of
        Inl error \<Rightarrow> (Rejected error, showNotification (JStr msg_request_failed) (JStr ''error'') p)
      | Inr v \<Rightarrow> (Fulfilled v, p))"

text \<open>A whole call, the network given as a function of the request.\<close>

definition ajax :: "(request \<Rightarrow> fetch_result) \<Rightarrow> string \<Rightarrow> options \<Rightarrow> page \<Rightarrow> promise \<times> page" where
  "ajax network u options p = ajax_settle (network (ajax_request u options p)) p"

section \<open>Utils.updateCartBadge and Utils.addToCart\<close>

text \<open>
  \<^verbatim>\<open>cartBadge.textContent = count\<close> stores the string of \<^verbatim>\<open>count\<close>, the empty string for
  \<^verbatim>\<open>null\<close> and \<^verbatim>\<open>undefined\<close>.
\<close>

definition text_of :: "jsval \<Rightarrow> string" where
  "text_of v = (if v = JNull \<or> v = JUndefined then [] else to_string v)"

definition updateCartBadge :: "jsval \<Rightarrow> page \<Rightarrow> page" where
  "updateCartBadge count p =
     (case cart_badge p of
        None \<Rightarrow> p
      | Some cartBadge \<Rightarrow>
          p\<lparr>cart_badge :=
              Some (cartBadge\<lparr>textContent := text_of count,
                              display := (if js_gt_zero count then ''inline'' else ''none'')\<rparr>)\<rparr>)"

definition msg_added :: string where
  "msg_added =
     [CHR 0xE5, CHR 0x95, CHR 0x86, CHR 0xE5, CHR 0x93, CHR 0x81, CHR 0xE5, CHR 0xB7,
      CHR 0xB2, CHR 0xE6, CHR 0xB7, CHR 0xBB, CHR 0xE5, CHR 0x8A, CHR 0xA0, CHR 0xE5,
      CHR 0x88, CHR 0xB0, CHR 0xE8, CHR 0xB4, CHR 0xAD, CHR 0xE7, CHR 0x89, CHR 0xA9,
      CHR 0xE8, CHR 0xBD, CHR 0xA6]"

definition msg_add_failed :: string where
  "msg_add_failed =
     [CHR 0xE6, CHR 0xB7, CHR 0xBB, CHR 0xE5, CHR 0x8A, CHR 0xA0, CHR 0xE5, CHR 0xA4,
      CHR 0xB1, CHR 0xE8, CHR 0xB4, CHR 0xA5]"

definition msg_add_failed_retry :: string where
  "msg_add_failed_retry =
     [CHR 0xE6, CHR 0xB7, CHR 0xBB, CHR 0xE5, CHR 0x8A, CHR 0xA0, CHR 0xE5, CHR 0xA4,
      CHR 0xB1, CHR 0xE8, CHR 0xB4, CHR 0xA5, CHR 0xEF, CHR 0xBC, CHR 0x8C, CHR 0xE8,
      CHR 0xAF, CHR 0xB7, CHR 0xE9, CHR 0x87, CHR 0x8D, CHR 0xE8, CHR 0xAF, CHR 0x95]"

text \<open>
  The request of \<^verbatim>\<open>addToCart(productId, quantity = 1, callback)\<close>: a \<^verbatim>\<open>POST\<close> to the product's
  endpoint with headers of its own and the body \<^verbatim>\<open>JSON.stringify({ quantity: quantity })\<close>.
\<close>

definition addToCart_options :: "jsval \<Rightarrow> options" where
  "addToCart_options quantity0 =
     (let quantity = (if quantity0 = JUndefined then JNum 1 else quantity0)
      in \<lparr>opt_method = Some ''POST'',
          opt_headers = Some [''Content-Type'' \<mapsto> ''application/json''],
          opt_body = Some (JSON_stringify (JObj [(''quantity'', quantity)]))\<rparr>)"

definition addToCart_request :: "jsval \<Rightarrow> jsval \<Rightarrow> page \<Rightarrow> request" where
  "addToCart_request productId quantity0 p =
     ajax_request (''/products/cart/add/'' @ to_string productId @ ''/'')
       (addToCart_options quantity0) p"

text \<open>
  A callback is a function of the caller's: it gets one value, may change the page, and
  may throw (\<open>Some\<close> error).
\<close>

type_synonym cart_callback = "jsval \<Rightarrow> page \<Rightarrow> js_error option \<times> page"

text \<open>A property of a value that is known not to be \<^verbatim>\<open>null\<close> or \<^verbatim>\<open>undefined\<close>.\<close>

definition read_prop :: "jsval \<Rightarrow> string \<Rightarrow> jsval" where
  "read_prop v k = (case get_prop v k of Inl e \<Rightarrow> JUndefined | Inr x \<Rightarrow> x)"

text \<open>The \<^verbatim>\<open>.then\<close> handler of \<^verbatim>\<open>addToCart\<close>.\<close>

definition addToCart_then :: "cart_callback option \<Rightarrow> jsval \<Rightarrow> page \<Rightarrow> (js_error + jsval) \<times> page" where
  "addToCart_then callback response p =
     (case get_prop response ''success'' of
        Inl e \<Rightarrow> (Inl e, p)
      | Inr success \<Rightarrow>
          (let p1 =
                 (if truthy success
                  then showNotification (JStr msg_added) (JStr ''success'')
                         (updateCartBadge (read_prop response ''cart_count'') p)
                  else showNotification (js_or (read_prop response ''error'') (JStr msg_add_failed))
                         (JStr ''error'') p)
           in case callback of
                None \<Rightarrow> (Inr response, p1)
              | Some cb \<Rightarrow>
                  (case cb success p1 of
                     (Some e, p2) \<Rightarrow> (Inl e, p2)
                   | (None, p2) \<Rightarrow> (Inr response, p2))))"

text \<open>The \<^verbatim>\<open>.catch\<close> handler of \<^verbatim>\<open>addToCart\<close>.\<close>

definition addToCart_catch :: "cart_callback option \<Rightarrow> js_error \<Rightarrow> page \<Rightarrow> promise \<times> page" where
  "addToCart_catch callback error p =
     (let p1 = showNotification (JStr msg_add_failed_retry) (JStr ''error'') p
      in case callback of
           None \<Rightarrow> (Rejected error, p1)
         | Some cb \<Rightarrow>
             (case cb (JBool False) p1 of
                (Some e, p2) \<Rightarrow> (Rejected e, p2)
              | (None, p2) \<Rightarrow> (Rejected error, p2)))"

text \<open>The promise \<^verbatim>\<open>addToCart\<close> returns, settled when the answer arrives.\<close>

definition addToCart_settle :: "cart_callback option \<Rightarrow> fetch_result \<Rightarrow> page \<Rightarrow> promise \<times> page" where
  "addToCart_settle callback r p =
     (case ajax_settle r p of
        (Rejected error, p1) \<Rightarrow> addToCart_catch callback error p1
      | (Fulfilled response, p1) \<Rightarrow>
          (case addToCart_then callback response p1 of
             (Inl error, p2) \<Rightarrow> addToCart_catch callback error p2
           | (Inr v, p2) \<Rightarrow> (Fulfilled v, p2)))"

definition addToCart ::
  "(request \<Rightarrow> fetch_result) \<Rightarrow> jsval \<Rightarrow> jsval \<Rightarrow> cart_callback option \<Rightarrow> page \<Rightarrow> promise \<times> page" where
  "addToCart network productId quantity0 callback p =
     addToCart_settle callback (network (addToCart_request productId quantity0 p)) p"

text \<open>What makes \<^verbatim>\<open>ajax\<close> reject: no answer, a status that is not ok, or a body that is not JSON.\<close>

definition transport_failure :: "fetch_result \<Rightarrow> bool" where
  "transport_failure r =
     (case r of
        FetchRejected \<Rightarrow> True
      | FetchResponse resp \<Rightarrow> \<not> ok resp \<or> json resp = None)"

definition error_notification :: "nat \<Rightarrow> string \<Rightarrow> node" where
  "error_notification i message =
     \<lparr>nid = i, className = ''notification error'', innerHTML = notification_html message\<rparr>"

definition success_notification :: "nat \<Rightarrow> string \<Rightarrow> node" where
  "success_notification i message =
     \<lparr>nid = i, className = ''notification success'', innerHTML = notification_html message\<rparr>"

section \<open>showToast and createToastContainer (frontend.js)\<close>

definition emoji_success :: string where
  "emoji_success = [CHR 0xE2, CHR 0x9C, CHR 0x85]"

definition emoji_error :: string where
  "emoji_error = [CHR 0xE2, CHR 0x9D, CHR 0x8C]"

definition emoji_info :: string where
  "emoji_info = [CHR 0xE2, CHR 0x84, CHR 0xB9, CHR 0xEF, CHR 0xB8, CHR 0x8F]"

definition toast_html :: "string \<Rightarrow> string \<Rightarrow> string" where
  \<open>toast_html emoji message =
     nl @ sp 8 @ ''<div class="d-flex">'' @
     nl @ sp 12 @ ''<div class="toast-body d-flex align-items-center">'' @
     nl @ sp 16 @ ''<span class="me-2">'' @ emoji @ ''</span>'' @
     nl @ sp 16 @ message @
     nl @ sp 12 @ ''</div>'' @
     nl @ sp 12 @ ''<button type="button" class="btn-close btn-close-white me-2 m-auto" data-bs-dismiss="toast"></button>'' @
     nl @ sp 8 @ ''</div>'' @
     nl @ sp 4\<close>

definition createToastContainer :: "page \<Rightarrow> page" where
  "createToastContainer p = p\<lparr>toast_container := Some []\<rparr>"

text \<open>
  \<^verbatim>\<open>showToast(message, type = 'info')\<close>: the container is made on the first use; the toast is
  appended to it and handed to Bootstrap with \<^verbatim>\<open>{ delay: 3000 }\<close>. \<^verbatim>\<open>showToast\<close> sets no timer
  of its own: it registers a listener for \<^verbatim>\<open>hidden.bs.toast\<close>.

  \<^verbatim>\<open>bootstrap.Toast\<close> is a class of the Bootstrap library and not of the repository: what it
  does with a toast it is handed, and when, is not part of this model.
\<close>

definition showToast :: "jsval \<Rightarrow> jsval \<Rightarrow> page \<Rightarrow> page" where
  "showToast message type0 p =
     (let type = (if type0 = JUndefined then JStr ''info'' else type0);
          p1 = (case toast_container p of None \<Rightarrow> createToastContainer p | Some ts \<Rightarrow> p);
          emoji = (if type = JStr ''success'' then emoji_success
                   else if type = JStr ''error'' then emoji_error else emoji_info);
          toast =
            \<lparr>nid = next_id p1,
             className = ''toast align-items-center text-white bg-'' @
               (if type = JStr ''success'' then ''success''
                else if type = JStr ''error'' then ''danger'' else ''info'') @ '' border-0'',
             innerHTML = toast_html emoji (to_string message)\<rparr>
      in p1\<lparr>toast_container := map_option (\<lambda>ts. ts @ [toast]) (toast_container p1),
            next_id := Suc (next_id p1),
            shown_toasts := shown_toasts p1 @ [(nid toast, 3000)]\<rparr>)"

text \<open>The listener of \<^verbatim>\<open>showToast\<close> for \<^verbatim>\<open>hidden.bs.toast\<close>: \<^verbatim>\<open>toast.remove()\<close>.\<close>

definition on_hidden :: "nat \<Rightarrow> page \<Rightarrow> page" where
  "on_hidden n p =
     p\<lparr>toast_container := map_option (filter (\<lambda>x. nid x \<noteq> n)) (toast_container p),
       remove_calls := remove_calls p @ [n]\<rparr>"

section \<open>Timers and the activity of the page\<close>

definition notification_ids :: "page \<Rightarrow> nat list" where
  "notification_ids p = map nid (body_children p)"

definition toast_ids :: "page \<Rightarrow> nat list" where
  "toast_ids p = (case toast_container p of None \<Rightarrow> [] | Some ts \<Rightarrow> map nid ts)"

text \<open>\<^verbatim>\<open>notification.remove()\<close>: the node leaves the body; the call is recorded.\<close>

definition remove_notification :: "nat \<Rightarrow> page \<Rightarrow> page" where
  "remove_notification n p =
     p\<lparr>body_children := filter (\<lambda>x. nid x \<noteq> n) (body_children p),
       remove_calls := remove_calls p @ [n]\<rparr>"

text \<open>
  The callback of the timer of \<^verbatim>\<open>showNotification\<close>:
  \<^verbatim>\<open>if (notification.parentElement) { notification.remove(); }\<close>.
\<close>

definition auto_close :: "nat \<Rightarrow> page \<Rightarrow> page" where
  "auto_close n p = (if n \<in> set (notification_ids p) then remove_notification n p else p)"

text \<open>
  A click on the close button of notification \<open>n\<close>, which can be clicked while the
  notification is on the page. Its handler is \<^verbatim>\<open>this.parentElement.parentElement.remove()\<close>:
  which element that is depends on the tree that the browser has parsed from the markup
  of the notification, the message in it. The parser is the browser's and a parameter
  here: \<open>parsed markup\<close> says that in the tree parsed from \<open>markup\<close> the parent of the parent
  of the close button is the notification itself. Then the handler removes the
  notification. Else it removes another element, one inside the notification or the
  body itself, and the notification stays a child of the body; what else changes then
  is not held in the page record.
\<close>

definition click_close :: "(string \<Rightarrow> bool) \<Rightarrow> nat \<Rightarrow> page \<Rightarrow> page" where
  "click_close parsed n p =
     (case find (\<lambda>x. nid x = n) (body_children p) of
        None \<Rightarrow> p
      | Some notification \<Rightarrow>
          if parsed (innerHTML notification) then remove_notification n p else p)"

text \<open>
  The markup that \<^verbatim>\<open>showNotification\<close> writes for a message without \<^verbatim>\<open><\<close>: the two fixed
  parts of the template with the message between them. The message is text there, and
  the close button stands in the content \<^verbatim>\<open>div\<close>, which stands in the notification.
\<close>

definition template_before :: string where
  \<open>template_before =
     nl @ sp 12 @ ''<div class="notification-content">'' @
     nl @ sp 16 @ ''<span class="notification-message">''\<close>

definition template_after :: string where
  \<open>template_after =
     ''</span>'' @
     nl @ sp 16 @ ''<button class="notification-close" onclick="this.parentElement.parentElement.remove()">&times;</button>'' @
     nl @ sp 12 @ ''</div>'' @
     nl @ sp 8\<close>

definition text_message_markup :: "string \<Rightarrow> bool" where
  "text_message_markup markup =
     (let a = length template_before; b = length template_after; n = length markup
      in a + b \<le> n \<and> take a markup = template_before \<and> drop (n - b) markup = template_after \<and>
         CHR ''<'' \<notin> set (take (n - a - b) (drop a markup)))"

text \<open>
  Bootstrap dispatches \<^verbatim>\<open>hidden.bs.toast\<close> on toast \<open>n\<close>, which it does after it has hidden a
  toast that was shown: on a toast of \<^verbatim>\<open>showToast\<close>, shown once, while it is on the page. The
  listener of \<^verbatim>\<open>showToast\<close> runs.
\<close>

definition toast_hidden :: "nat \<Rightarrow> page \<Rightarrow> page" where
  "toast_hidden n p = (if n \<in> set (toast_ids p) then on_hidden n p else p)"

fun run_callback :: "callback \<Rightarrow> page \<Rightarrow> page" where
  "run_callback (AutoClose n) p = auto_close n p"

text \<open>The pending timer that is due first; of two with the same time, the one set first.\<close>

fun earliest :: "(nat \<times> callback) list \<Rightarrow> (nat \<times> callback) option" where
  "earliest [] = None"
| "earliest (x # xs) =
     (case earliest xs of
        None \<Rightarrow> Some x
      | Some y \<Rightarrow> if fst y < fst x then Some y else Some x)"

lemma earliest_mem: "earliest ts = Some x \<Longrightarrow> x \<in> set ts"
  by (induction ts arbitrary: x) (auto split: option.splits if_splits)

lemma length_timers_run_callback: "length (timers (run_callback c p)) \<le> length (timers p)"
  by (cases c) (simp_all add: auto_close_def remove_notification_def)

text \<open>
  Time runs on to \<open>t\<close>: the timers due by then fire one after the other, each at its own
  time.
\<close>

function run_timers :: "nat \<Rightarrow> page \<Rightarrow> page" where
  "run_timers t p =
     (case earliest (timers p) of
        None \<Rightarrow> p\<lparr>now := max (now p) t\<rparr>
      | Some (d, c) \<Rightarrow>
          if d \<le> t
          then run_timers t
                 (run_callback c (p\<lparr>now := max (now p) d, timers := remove1 (d, c) (timers p)\<rparr>))
          else p\<lparr>now := max (now p) t\<rparr>)"
  by pat_completeness auto
termination
proof (relation "measure (\<lambda>(t, p). length (timers p))", goal_cases)
  case 1
  then show ?case by simp
next
  case (2 t p x d c)
  then have mem: "(d, c) \<in> set (timers p)"
    by (simp add: earliest_mem)
  have "length (timers (run_callback c (p\<lparr>now := max (now p) d, timers := remove1 (d, c) (timers p)\<rparr>)))
        \<le> length (remove1 (d, c) (timers p))"
    using length_timers_run_callback [of c "p\<lparr>now := max (now p) d, timers := remove1 (d, c) (timers p)\<rparr>"]
    by simp
  also have "\<dots> < length (timers p)"
    using mem by (simp add: length_remove1) (cases "timers p"; auto)
  finally show ?case by simp
qed

declare run_timers.simps [simp del]

text \<open>
  What happens on the page: a notification or a toast is shown, the close button of a
  notification is clicked, Bootstrap dispatches \<^verbatim>\<open>hidden.bs.toast\<close>, time passes, the answer to
  a request of \<^verbatim>\<open>ajax\<close> or of \<^verbatim>\<open>addToCart\<close> arrives.
\<close>

datatype event =
    ShowNotification jsval jsval
  | ShowToast jsval jsval
  | ClickClose nat
  | ToastHidden nat
  | Advance nat
  | AjaxSettles fetch_result
  | AddToCartSettles fetch_result

fun step :: "(string \<Rightarrow> bool) \<Rightarrow> event \<Rightarrow> page \<Rightarrow> page" where
  "step parsed (ShowNotification m t) p = showNotification m t p"
| "step parsed (ShowToast m t) p = showToast m t p"
| "step parsed (ClickClose n) p = click_close parsed n p"
| "step parsed (ToastHidden n) p = toast_hidden n p"
| "step parsed (Advance d) p = run_timers (now p + d) p"
| "step parsed (AjaxSettles r) p = snd (ajax_settle r p)"
| "step parsed (AddToCartSettles r) p = snd (addToCart_settle None r p)"

definition run :: "(string \<Rightarrow> bool) \<Rightarrow> event list \<Rightarrow> page \<Rightarrow> page" where
  "run parsed evs p = fold (step parsed) evs p"

fun target :: "callback \<Rightarrow> nat" where
  "target (AutoClose n) = n"

text \<open>
  A page between two events: the nodes on it, the removed ones and the targets of the
  timers were all created before (\<open>nid < next_id\<close>), no node is there twice, none that
  \<^verbatim>\<open>remove()\<close> was called on is still there, and every pending timer is due later than now.
\<close>

definition nodes_consistent :: "page \<Rightarrow> bool" where
  "nodes_consistent p =
     ((\<forall>n \<in> set (notification_ids p @ toast_ids p @ remove_calls p). n < next_id p) \<and>
      (\<forall>(d, c) \<in> set (timers p). target c < next_id p) \<and>
      distinct (notification_ids p @ toast_ids p @ remove_calls p))"

definition timers_pending :: "page \<Rightarrow> bool" where
  "timers_pending p = (\<forall>(d, c) \<in> set (timers p). now p < d)"

definition well_formed :: "page \<Rightarrow> bool" where
  "well_formed p = (nodes_consistent p \<and> timers_pending p)"

text \<open>
  What is known of the notification \<open>n\<close> that \<^verbatim>\<open>showNotification\<close> made with a timer due at
  \<open>due\<close>: it is on the page or \<^verbatim>\<open>remove()\<close> was called on it, its timer is pending as long as
  it is not due or the node is on the page, and no other timer is for it.
\<close>

definition close_tracked :: "nat \<Rightarrow> nat \<Rightarrow> page \<Rightarrow> bool" where
  "close_tracked n due p =
     (n < next_id p \<and>
      (n \<in> set (notification_ids p) \<or> n \<in> set (remove_calls p)) \<and>
      (now p < due \<or> n \<in> set (notification_ids p) \<longrightarrow> (due, AutoClose n) \<in> set (timers p)) \<and>
      (\<forall>(d, c) \<in> set (timers p). c = AutoClose n \<longrightarrow> d = due))"



section \<open>Example pages and answers\<close>

definition page_with_cookie :: page where
  "page_with_cookie =
     \<lparr>cookie = ''sessionid=xyz; csrftoken=abc123'', csrf_field = None, body_children = [],
      toast_container = None, cart_badge = Some \<lparr>textContent = ''2'', display = ''inline''\<rparr>,
      now = 0, timers = [], next_id = 0, remove_calls = [], shown_toasts = []\<rparr>"

definition page_with_empty_cookie :: page where
  "page_with_empty_cookie =
     page_with_cookie\<lparr>cookie := ''sessionid=xyz; csrftoken='', csrf_field := Some ''tok42''\<rparr>"

definition page_with_field :: page where
  "page_with_field = page_with_cookie\<lparr>cookie := ''sessionid=xyz'', csrf_field := Some ''tok42''\<rparr>"

definition page_with_padded_cookie :: page where
  "page_with_padded_cookie = page_with_cookie\<lparr>cookie := ''csrftoken=YWJj=; sessionid=xyz''\<rparr>"

definition answer_added :: fetch_result where
  "answer_added =
     FetchResponse \<lparr>status = 200,
       json = Some (JObj [(''success'', JBool True), (''cart_count'', JNum 5)])\<rparr>"

definition answer_out_of_stock :: fetch_result where
  "answer_out_of_stock =
     FetchResponse \<lparr>status = 200,
       json = Some (JObj [(''success'', JBool False), (''error'', JStr ''out of stock'')])\<rparr>"

definition answer_server_error :: fetch_result where
  "answer_server_error = FetchResponse \<lparr>status = 500, json = None\<rparr>"

section \<open>Facts shared by the proofs\<close>

lemma showNotification_error:
  "showNotification v (JStr ''error'') p =
     p\<lparr>body_children := body_children p @ [error_notification (next_id p) (to_string v)],
       timers := timers p @ [(now p + 5000, AutoClose (next_id p))],
       next_id := Suc (next_id p)\<rparr>"
  by (simp add: showNotification_def error_notification_def)

lemma showNotification_success:
  "showNotification v (JStr ''success'') p =
     p\<lparr>body_children := body_children p @ [success_notification (next_id p) (to_string v)],
       timers := timers p @ [(now p + 5000, AutoClose (next_id p))],
       next_id := Suc (next_id p)\<rparr>"
  by (simp add: showNotification_def success_notification_def)

lemma ajax_settle_fulfilled: "ajax_then r = Inr v \<Longrightarrow> ajax_settle r p = (Fulfilled v, p)"
  by (simp add: ajax_settle_def)

lemma ajax_settle_rejected:
  "ajax_then r = Inl e \<Longrightarrow>
   ajax_settle r p = (Rejected e, showNotification (JStr msg_request_failed) (JStr ''error'') p)"
  by (simp add: ajax_settle_def)

lemma transport_failure_iff: "transport_failure r \<longleftrightarrow> (\<exists>e. ajax_then r = Inl e)"
  by (cases r) (auto simp: transport_failure_def ajax_then_def split: option.splits)

lemma updateCartBadge_num:
  "updateCartBadge (JNum n) p =
     p\<lparr>cart_badge :=
         map_option (\<lambda>b. b\<lparr>textContent := show_int n,
                             display := (if 0 < n then ''inline'' else ''none'')\<rparr>)
           (cart_badge p)\<rparr>"
  by (cases "cart_badge p") (simp_all add: updateCartBadge_def text_of_def js_gt_zero_def)

lemma show_int_5: "show_int 5 = ''5''"
  by (simp add: show_int_def digits.simps)

lemma toUpperCase_post: "toUpperCase ''post'' = ''POST''"
  by code_simp

lemma toUpperCase_delete: "toUpperCase ''DELETE'' = ''DELETE''"
  by code_simp

lemma getCsrfToken_page_with_cookie: "getCsrfToken page_with_cookie = Some ''abc123''"
  by code_simp

lemma ajax_then_answer_added:
  "ajax_then answer_added = Inr (JObj [(''success'', JBool True), (''cart_count'', JNum 5)])"
  by (simp add: ajax_then_def answer_added_def ok_def)

lemma ajax_then_answer_out_of_stock:
  "ajax_then answer_out_of_stock =
     Inr (JObj [(''success'', JBool False), (''error'', JStr ''out of stock'')])"
  by (simp add: ajax_then_def answer_out_of_stock_def ok_def)

lemma ajax_then_answer_server_error: "ajax_then answer_server_error = Inl (HTTPError 500)"
  by (simp add: ajax_then_def answer_server_error_def ok_def)

lemma transport_failure_answer_server_error: "transport_failure answer_server_error"
  by (simp add: transport_failure_def answer_server_error_def ok_def)

section \<open>Timers, events and what they keep\<close>

lemma earliest_None: "earliest ts = None \<longleftrightarrow> ts = []"
  by (cases ts) (auto split: option.splits)

lemma earliest_least: "earliest ts = Some x \<Longrightarrow> y \<in> set ts \<Longrightarrow> fst x \<le> fst y"
  by (induction ts arbitrary: x) (fastforce split: option.splits if_splits simp: earliest_None)+

lemma run_timers_rule:
  fixes Q R :: "page \<Rightarrow> bool"
  assumes cb: "\<And>d c q. Q q \<Longrightarrow> (d, c) \<in> set (timers q) \<Longrightarrow> d \<le> t \<Longrightarrow>
                 Q (run_callback c (q\<lparr>now := max (now q) d, timers := remove1 (d, c) (timers q)\<rparr>))"
    and fin: "\<And>q. Q q \<Longrightarrow> \<forall>(d, c) \<in> set (timers q). t < d \<Longrightarrow> R (q\<lparr>now := max (now q) t\<rparr>)"
    and "Q p"
  shows "R (run_timers t p)"
  using \<open>Q p\<close>
proof (induction "length (timers p)" arbitrary: p rule: less_induct)
  case less
  show ?case
  proof (cases "earliest (timers p)")
    case None
    then have "\<forall>(d, c) \<in> set (timers p). t < d"
      by (simp add: earliest_None)
    from fin [OF less.prems this] have "R (p\<lparr>now := max (now p) t\<rparr>)" .
    moreover have "run_timers t p = p\<lparr>now := max (now p) t\<rparr>"
      by (subst run_timers.simps) (simp only: None option.case)
    ultimately show ?thesis by (simp only:)
  next
    case (Some x)
    obtain d c where x: "x = (d, c)" by (cases x)
    have mem: "(d, c) \<in> set (timers p)"
      using Some x by (simp add: earliest_mem)
    show ?thesis
    proof (cases "d \<le> t")
      case True
      let ?q = "run_callback c (p\<lparr>now := max (now p) d, timers := remove1 (d, c) (timers p)\<rparr>)"
      have Qq: "Q ?q"
        using cb [OF less.prems mem True] .
      have "length (timers ?q) \<le> length (remove1 (d, c) (timers p))"
        using length_timers_run_callback
          [of c "p\<lparr>now := max (now p) d, timers := remove1 (d, c) (timers p)\<rparr>"]
        by simp
      also have "\<dots> < length (timers p)"
        using mem by (simp add: length_remove1) (cases "timers p"; auto)
      finally have "R (run_timers t ?q)"
        using less.hyps Qq by blast
      moreover have "run_timers t p = run_timers t ?q"
        by (subst run_timers.simps) (simp only: Some x option.case prod.case True if_True)
      ultimately show ?thesis by (simp only:)
    next
      case False
      have "\<forall>(d', c') \<in> set (timers p). t < d'"
      proof (clarify)
        fix d' c' assume "(d', c') \<in> set (timers p)"
        from earliest_least [OF Some this] x False show "t < d'" by simp
      qed
      from fin [OF less.prems this] have "R (p\<lparr>now := max (now p) t\<rparr>)" .
      moreover have "run_timers t p = p\<lparr>now := max (now p) t\<rparr>"
        by (subst run_timers.simps) (simp only: Some x option.case prod.case False if_False)
      ultimately show ?thesis by (simp only:)
    qed
  qed
qed


lemma showNotification_view:
  "notification_ids (showNotification m ty p) = notification_ids p @ [next_id p]"
  "toast_ids (showNotification m ty p) = toast_ids p"
  "timers (showNotification m ty p) = timers p @ [(now p + 5000, AutoClose (next_id p))]"
  "now (showNotification m ty p) = now p"
  "next_id (showNotification m ty p) = Suc (next_id p)"
  "remove_calls (showNotification m ty p) = remove_calls p"
  by (simp_all add: showNotification_def notification_ids_def toast_ids_def Let_def)

lemma showToast_view:
  "notification_ids (showToast m ty p) = notification_ids p"
  "toast_ids (showToast m ty p) = toast_ids p @ [next_id p]"
  "timers (showToast m ty p) = timers p"
  "now (showToast m ty p) = now p"
  "next_id (showToast m ty p) = Suc (next_id p)"
  "remove_calls (showToast m ty p) = remove_calls p"
  "shown_toasts (showToast m ty p) = shown_toasts p @ [(next_id p, 3000)]"
  by (simp_all add: showToast_def createToastContainer_def
        notification_ids_def toast_ids_def Let_def split: option.splits)

lemma remove_notification_view:
  "notification_ids (remove_notification n p) = filter (\<lambda>i. i \<noteq> n) (notification_ids p)"
  "toast_ids (remove_notification n p) = toast_ids p"
  "timers (remove_notification n p) = timers p"
  "now (remove_notification n p) = now p"
  "next_id (remove_notification n p) = next_id p"
  "remove_calls (remove_notification n p) = remove_calls p @ [n]"
  by (simp_all add: remove_notification_def notification_ids_def toast_ids_def filter_map comp_def)

lemma on_hidden_view:
  "notification_ids (on_hidden n p) = notification_ids p"
  "toast_ids (on_hidden n p) = filter (\<lambda>i. i \<noteq> n) (toast_ids p)"
  "timers (on_hidden n p) = timers p"
  "now (on_hidden n p) = now p"
  "next_id (on_hidden n p) = next_id p"
  "remove_calls (on_hidden n p) = remove_calls p @ [n]"
  by (simp_all add: on_hidden_def notification_ids_def toast_ids_def
        filter_map comp_def split: option.splits)

lemma updateCartBadge_view:
  "notification_ids (updateCartBadge c p) = notification_ids p"
  "toast_ids (updateCartBadge c p) = toast_ids p"
  "timers (updateCartBadge c p) = timers p"
  "now (updateCartBadge c p) = now p"
  "next_id (updateCartBadge c p) = next_id p"
  "remove_calls (updateCartBadge c p) = remove_calls p"
  by (simp_all add: updateCartBadge_def notification_ids_def toast_ids_def split: option.splits)

lemma clock_view:
  "notification_ids (p\<lparr>now := t, timers := ts\<rparr>) = notification_ids p"
  "toast_ids (p\<lparr>now := t, timers := ts\<rparr>) = toast_ids p"
  "notification_ids (p\<lparr>now := t\<rparr>) = notification_ids p"
  "toast_ids (p\<lparr>now := t\<rparr>) = toast_ids p"
  by (simp_all add: notification_ids_def toast_ids_def)

lemmas view_simps =
  showNotification_view showToast_view remove_notification_view on_hidden_view
  updateCartBadge_view clock_view

text \<open>The answers change the page by notifications and the badge only.\<close>

lemma ajax_settle_preserves:
  fixes P :: "page \<Rightarrow> bool"
  assumes "\<And>m ty q. P q \<Longrightarrow> P (showNotification m ty q)" and "P p"
  shows "P (snd (ajax_settle r p))"
  using assms by (simp add: ajax_settle_def split: sum.splits)

lemma addToCart_settle_preserves:
  fixes P :: "page \<Rightarrow> bool"
  assumes sn: "\<And>m ty q. P q \<Longrightarrow> P (showNotification m ty q)"
    and ub: "\<And>c q. P q \<Longrightarrow> P (updateCartBadge c q)" and "P p"
  shows "P (snd (addToCart_settle None r p))"
  using \<open>P p\<close>
  by (auto simp: addToCart_settle_def ajax_settle_def addToCart_then_def addToCart_catch_def
        Let_def split: sum.splits intro!: sn ub)


lemma nodes_consistent_iff:
  "nodes_consistent p \<longleftrightarrow>
     (\<forall>n \<in> set (notification_ids p). n < next_id p) \<and>
     (\<forall>n \<in> set (toast_ids p). n < next_id p) \<and>
     (\<forall>n \<in> set (remove_calls p). n < next_id p) \<and>
     (\<forall>d c. (d, c) \<in> set (timers p) \<longrightarrow> target c < next_id p) \<and>
     distinct (notification_ids p) \<and> distinct (toast_ids p) \<and> distinct (remove_calls p) \<and>
     set (notification_ids p) \<inter> set (toast_ids p) = {} \<and>
     set (notification_ids p) \<inter> set (remove_calls p) = {} \<and>
     set (toast_ids p) \<inter> set (remove_calls p) = {}"
proof -
  have "(\<forall>(d, c) \<in> set (timers p). target c < next_id p) \<longleftrightarrow>
        (\<forall>d c. (d, c) \<in> set (timers p) \<longrightarrow> target c < next_id p)"
    by blast
  then show ?thesis
    unfolding nodes_consistent_def by (simp add: ball_Un) blast
qed

text \<open>A click on the close button removes the notification or changes nothing.\<close>

lemma click_close_cases:
  "click_close parsed n p = p \<or>
   (n \<in> set (notification_ids p) \<and> click_close parsed n p = remove_notification n p)"
proof (cases "find (\<lambda>x. nid x = n) (body_children p)")
  case None
  then show ?thesis by (simp add: click_close_def)
next
  case (Some x)
  then have "x \<in> set (body_children p) \<and> nid x = n"
    by (auto simp: find_Some_iff)
  then have "n \<in> set (notification_ids p)"
    by (auto simp: notification_ids_def)
  with Some show ?thesis by (simp add: click_close_def)
qed

lemma toast_hidden_cases:
  "toast_hidden n p = p \<or> (n \<in> set (toast_ids p) \<and> toast_hidden n p = on_hidden n p)"
  by (simp add: toast_hidden_def)

lemma nodes_consistent_showNotification:
  "nodes_consistent p \<Longrightarrow> nodes_consistent (showNotification m ty p)"
  unfolding nodes_consistent_iff by (simp add: view_simps) (fastforce simp: less_Suc_eq)

lemma nodes_consistent_showToast:
  "nodes_consistent p \<Longrightarrow> nodes_consistent (showToast m ty p)"
  unfolding nodes_consistent_iff by (simp add: view_simps) (fastforce simp: less_Suc_eq)

lemma nodes_consistent_updateCartBadge:
  "nodes_consistent p \<Longrightarrow> nodes_consistent (updateCartBadge c p)"
  unfolding nodes_consistent_iff by (simp add: view_simps)

lemma nodes_consistent_remove_notification:
  "nodes_consistent p \<Longrightarrow> n \<in> set (notification_ids p) \<Longrightarrow>
   nodes_consistent (remove_notification n p)"
  unfolding nodes_consistent_iff by (simp add: view_simps) blast

lemma nodes_consistent_on_hidden:
  "nodes_consistent p \<Longrightarrow> n \<in> set (toast_ids p) \<Longrightarrow> nodes_consistent (on_hidden n p)"
  unfolding nodes_consistent_iff by (simp add: view_simps) blast

lemma nodes_consistent_clock:
  "nodes_consistent p \<Longrightarrow> set ts \<subseteq> set (timers p) \<Longrightarrow>
   nodes_consistent (p\<lparr>now := t, timers := ts\<rparr>)"
  unfolding nodes_consistent_iff by (simp add: view_simps) blast

lemma nodes_consistent_now:
  "nodes_consistent p \<Longrightarrow> nodes_consistent (p\<lparr>now := t\<rparr>)"
  unfolding nodes_consistent_iff by (simp add: view_simps)

lemma run_callback_view:
  "now (run_callback c p) = now p"
  "next_id (run_callback c p) = next_id p"
  by (cases c; simp add: auto_close_def view_simps)+

lemma timers_run_callback_subset: "set (timers (run_callback c p)) \<subseteq> set (timers p)"
  by (cases c) (auto simp: auto_close_def view_simps)

lemma nodes_consistent_run_callback:
  assumes "nodes_consistent q" and "(d, c) \<in> set (timers q)"
  shows "nodes_consistent (run_callback c (q\<lparr>now := t', timers := remove1 (d, c) (timers q)\<rparr>))"
proof -
  let ?q = "q\<lparr>now := t', timers := remove1 (d, c) (timers q)\<rparr>"
  have q': "nodes_consistent ?q"
    using assms(1) by (rule nodes_consistent_clock) (rule set_remove1_subset)
  show ?thesis
  proof (cases c)
    case (AutoClose n)
    then show ?thesis
      using q' by (simp add: auto_close_def nodes_consistent_remove_notification)
  qed
qed

lemma nodes_consistent_run_timers:
  "nodes_consistent p \<Longrightarrow> nodes_consistent (run_timers t p)"
  by (rule run_timers_rule [where Q = nodes_consistent])
     (simp_all add: nodes_consistent_run_callback nodes_consistent_now)

lemma now_run_timers: "now (run_timers t p) = max (now p) t"
proof (rule run_timers_rule [where Q = "\<lambda>q. now p \<le> now q \<and> now q \<le> max (now p) t"])
  show "now p \<le> now p \<and> now p \<le> max (now p) t" by simp
qed (auto simp: run_callback_view)

lemma timers_run_timers_subset: "set (timers (run_timers t p)) \<subseteq> set (timers p)"
proof (rule run_timers_rule [where Q = "\<lambda>q. set (timers q) \<subseteq> set (timers p)"])
  fix d c and q :: page
  assume "set (timers q) \<subseteq> set (timers p)"
  moreover have "set (timers (run_callback c (q\<lparr>now := max (now q) d, timers := remove1 (d, c) (timers q)\<rparr>)))
      \<subseteq> set (remove1 (d, c) (timers q))"
    using timers_run_callback_subset [of c "q\<lparr>now := max (now q) d, timers := remove1 (d, c) (timers q)\<rparr>"]
    by simp
  moreover have "set (remove1 (d, c) (timers q)) \<subseteq> set (timers q)"
    by (rule set_remove1_subset)
  ultimately show "set (timers (run_callback c (q\<lparr>now := max (now q) d, timers := remove1 (d, c) (timers q)\<rparr>)))
      \<subseteq> set (timers p)"
    by blast
qed simp_all

lemma timers_run_timers_later: "\<forall>(d, c) \<in> set (timers (run_timers t p)). t < d"
  by (rule run_timers_rule [where Q = "\<lambda>q. True"]) simp_all

lemma timers_pending_run_timers:
  assumes "timers_pending p"
  shows "timers_pending (run_timers t p)"
  unfolding timers_pending_def
proof (clarify)
  fix d c assume m: "(d, c) \<in> set (timers (run_timers t p))"
  with timers_run_timers_later [of t p] have "t < d" by blast
  moreover from m timers_run_timers_subset [of t p] assms have "now p < d"
    by (auto simp: timers_pending_def)
  ultimately show "now (run_timers t p) < d"
    by (simp add: now_run_timers)
qed

lemma well_formed_showNotification: "well_formed p \<Longrightarrow> well_formed (showNotification m ty p)"
  by (auto simp: well_formed_def nodes_consistent_showNotification timers_pending_def view_simps)

lemma well_formed_updateCartBadge: "well_formed p \<Longrightarrow> well_formed (updateCartBadge c p)"
  by (auto simp: well_formed_def nodes_consistent_updateCartBadge timers_pending_def view_simps)

lemma well_formed_step:
  assumes "well_formed p"
  shows "well_formed (step parsed e p)"
proof (cases e)
  case (ShowNotification m ty)
  with assms show ?thesis by (simp add: well_formed_showNotification)
next
  case (ShowToast m ty)
  with assms show ?thesis
    by (auto simp: well_formed_def nodes_consistent_showToast timers_pending_def view_simps)
next
  case (ClickClose n)
  have "well_formed (click_close parsed n p)"
    using click_close_cases [of parsed n p] assms
    by (auto simp: well_formed_def nodes_consistent_remove_notification
          timers_pending_def view_simps)
  with ClickClose show ?thesis by simp
next
  case (ToastHidden n)
  have "well_formed (toast_hidden n p)"
    using toast_hidden_cases [of n p] assms
    by (auto simp: well_formed_def nodes_consistent_on_hidden timers_pending_def view_simps)
  with ToastHidden show ?thesis by simp
next
  case (Advance d)
  with assms show ?thesis
    by (simp add: well_formed_def nodes_consistent_run_timers timers_pending_run_timers)
next
  case (AjaxSettles r)
  have "well_formed (snd (ajax_settle r p))"
    by (rule ajax_settle_preserves [where P = well_formed])
       (simp_all add: assms well_formed_showNotification)
  with AjaxSettles show ?thesis by simp
next
  case (AddToCartSettles r)
  have "well_formed (snd (addToCart_settle None r p))"
    by (rule addToCart_settle_preserves [where P = well_formed])
       (simp_all add: assms well_formed_showNotification well_formed_updateCartBadge)
  with AddToCartSettles show ?thesis by simp
qed

lemma well_formed_run: "well_formed p \<Longrightarrow> well_formed (run parsed evs p)"
  unfolding run_def by (induction evs arbitrary: p) (simp_all add: well_formed_step)

lemma close_tracked_iff:
  "close_tracked n due p \<longleftrightarrow>
     n < next_id p \<and>
     (n \<in> set (notification_ids p) \<or> n \<in> set (remove_calls p)) \<and>
     (now p < due \<longrightarrow> (due, AutoClose n) \<in> set (timers p)) \<and>
     (n \<in> set (notification_ids p) \<longrightarrow> (due, AutoClose n) \<in> set (timers p)) \<and>
     (\<forall>d. (d, AutoClose n) \<in> set (timers p) \<longrightarrow> d = due)"
  unfolding close_tracked_def by blast

lemma close_tracked_showNotification:
  "close_tracked n due p \<Longrightarrow> close_tracked n due (showNotification m ty p)"
  unfolding close_tracked_iff by (simp add: view_simps)

lemma close_tracked_showToast:
  "close_tracked n due p \<Longrightarrow> close_tracked n due (showToast m ty p)"
  unfolding close_tracked_iff by (simp add: view_simps)

lemma close_tracked_updateCartBadge:
  "close_tracked n due p \<Longrightarrow> close_tracked n due (updateCartBadge c p)"
  unfolding close_tracked_iff by (simp add: view_simps)

lemma close_tracked_remove_notification:
  "close_tracked n due p \<Longrightarrow> close_tracked n due (remove_notification k p)"
  unfolding close_tracked_iff by (simp add: view_simps) blast

lemma close_tracked_on_hidden:
  "close_tracked n due p \<Longrightarrow> close_tracked n due (on_hidden k p)"
  unfolding close_tracked_iff by (simp add: view_simps) blast

lemma close_tracked_now:
  "close_tracked n due p \<Longrightarrow> now p \<le> t \<Longrightarrow> close_tracked n due (p\<lparr>now := t\<rparr>)"
  unfolding close_tracked_iff by (simp add: view_simps)

lemma close_trackedI:
  assumes "n < next_id p"
    and "n \<in> set (notification_ids p) \<or> n \<in> set (remove_calls p)"
    and "now p < due \<Longrightarrow> (due, AutoClose n) \<in> set (timers p)"
    and "n \<in> set (notification_ids p) \<Longrightarrow> (due, AutoClose n) \<in> set (timers p)"
    and "\<And>d. (d, AutoClose n) \<in> set (timers p) \<Longrightarrow> d = due"
  shows "close_tracked n due p"
  unfolding close_tracked_iff using assms by blast

lemma close_trackedD:
  assumes "close_tracked n due p"
  shows "n < next_id p"
    and "n \<in> set (notification_ids p) \<or> n \<in> set (remove_calls p)"
    and "now p < due \<Longrightarrow> (due, AutoClose n) \<in> set (timers p)"
    and "n \<in> set (notification_ids p) \<Longrightarrow> (due, AutoClose n) \<in> set (timers p)"
    and "(d, AutoClose n) \<in> set (timers p) \<Longrightarrow> d = due"
  using assms unfolding close_tracked_iff by blast+

text \<open>One timer fires.\<close>

lemma close_tracked_fire:
  assumes ct: "close_tracked n due q" and mem: "(d, c) \<in> set (timers q)"
  shows "close_tracked n due
           (run_callback c (q\<lparr>now := max (now q) d, timers := remove1 (d, c) (timers q)\<rparr>))"
proof -
  let ?q = "q\<lparr>now := max (now q) d, timers := remove1 (d, c) (timers q)\<rparr>"
  have v: "notification_ids ?q = notification_ids q" "remove_calls ?q = remove_calls q"
    "next_id ?q = next_id q" "now ?q = max (now q) d"
    "timers ?q = remove1 (d, c) (timers q)"
    by (simp_all add: view_simps)
  have sub: "\<And>x. x \<in> set (remove1 (d, c) (timers q)) \<Longrightarrow> x \<in> set (timers q)"
    using set_remove1_subset [of "(d, c)" "timers q"] by blast
  show ?thesis
  proof (cases "c = AutoClose n")
    case True
    with mem have d: "d = due" using close_trackedD(5) [OF ct] by blast
    show ?thesis
    proof (cases "n \<in> set (notification_ids q)")
      case yes: True
      have "close_tracked n due (remove_notification n ?q)"
      proof (rule close_trackedI)
        show "n < next_id (remove_notification n ?q)"
          using close_trackedD(1) [OF ct] by (simp add: view_simps)
        show "n \<in> set (notification_ids (remove_notification n ?q)) \<or>
              n \<in> set (remove_calls (remove_notification n ?q))"
          by (simp add: view_simps)
        show "(due, AutoClose n) \<in> set (timers (remove_notification n ?q))"
          if "now (remove_notification n ?q) < due"
          using that d by (simp add: view_simps)
        show "(due, AutoClose n) \<in> set (timers (remove_notification n ?q))"
          if "n \<in> set (notification_ids (remove_notification n ?q))"
          using that by (simp add: view_simps)
        show "d' = due" if "(d', AutoClose n) \<in> set (timers (remove_notification n ?q))" for d'
        proof -
          from that have "(d', AutoClose n) \<in> set (remove1 (d, c) (timers q))"
            by (simp add: view_simps)
          then have "(d', AutoClose n) \<in> set (timers q)" by (rule sub)
          then show ?thesis by (rule close_trackedD(5) [OF ct])
        qed
      qed
      with True yes show ?thesis
        by (simp add: auto_close_def view_simps)
    next
      case no: False
      have "close_tracked n due ?q"
      proof (rule close_trackedI)
        show "n < next_id ?q"
          using close_trackedD(1) [OF ct] by simp
        show "n \<in> set (notification_ids ?q) \<or> n \<in> set (remove_calls ?q)"
          using close_trackedD(2) [OF ct] by (simp add: view_simps)
        show "(due, AutoClose n) \<in> set (timers ?q)" if "now ?q < due"
          using that d by simp
        show "(due, AutoClose n) \<in> set (timers ?q)" if "n \<in> set (notification_ids ?q)"
          using that no by (simp add: view_simps)
        show "d' = due" if "(d', AutoClose n) \<in> set (timers ?q)" for d'
        proof -
          from that have "(d', AutoClose n) \<in> set (remove1 (d, c) (timers q))"
            by simp
          then have "(d', AutoClose n) \<in> set (timers q)" by (rule sub)
          then show ?thesis by (rule close_trackedD(5) [OF ct])
        qed
      qed
      with True no show ?thesis
        by (simp add: auto_close_def view_simps)
    qed
  next
    case False
    have keep: "(due, AutoClose n) \<in> set (timers q) \<Longrightarrow> (due, AutoClose n) \<in> set (timers ?q)"
      using False by (simp add: in_set_remove1)
    have q': "close_tracked n due ?q"
    proof (rule close_trackedI)
      show "n < next_id ?q"
        using close_trackedD(1) [OF ct] by simp
      show "n \<in> set (notification_ids ?q) \<or> n \<in> set (remove_calls ?q)"
        using close_trackedD(2) [OF ct] by (simp add: view_simps)
      show "(due, AutoClose n) \<in> set (timers ?q)" if "now ?q < due"
      proof -
        from that have "now q < due" by simp
        then show ?thesis using close_trackedD(3) [OF ct] keep by blast
      qed
      show "(due, AutoClose n) \<in> set (timers ?q)" if "n \<in> set (notification_ids ?q)"
      proof -
        from that have "n \<in> set (notification_ids q)" by (simp add: view_simps)
        then show ?thesis using close_trackedD(4) [OF ct] keep by blast
      qed
      show "d' = due" if "(d', AutoClose n) \<in> set (timers ?q)" for d'
      proof -
        from that have "(d', AutoClose n) \<in> set (remove1 (d, c) (timers q))"
          by simp
        then have "(d', AutoClose n) \<in> set (timers q)" by (rule sub)
        then show ?thesis by (rule close_trackedD(5) [OF ct])
      qed
    qed
    show ?thesis
    proof (cases c)
      case (AutoClose k)
      then show ?thesis
        using q' by (simp add: auto_close_def close_tracked_remove_notification)
    qed
  qed
qed

lemma close_tracked_run_timers:
  "close_tracked n due p \<Longrightarrow> close_tracked n due (run_timers t p)"
  by (rule run_timers_rule [where Q = "close_tracked n due"])
     (simp_all add: close_tracked_fire close_tracked_now)

lemma close_tracked_step:
  assumes "close_tracked n due p"
  shows "close_tracked n due (step parsed e p)"
proof (cases e)
  case (ShowNotification m ty)
  with assms show ?thesis by (simp add: close_tracked_showNotification)
next
  case (ShowToast m ty)
  with assms show ?thesis by (simp add: close_tracked_showToast)
next
  case (ClickClose k)
  have "close_tracked n due (click_close parsed k p)"
    using click_close_cases [of parsed k p] assms
    by (auto simp: close_tracked_remove_notification)
  with ClickClose show ?thesis by simp
next
  case (ToastHidden k)
  with assms show ?thesis by (simp add: toast_hidden_def close_tracked_on_hidden)
next
  case (Advance d)
  with assms show ?thesis by (simp add: close_tracked_run_timers)
next
  case (AjaxSettles r)
  have "close_tracked n due (snd (ajax_settle r p))"
    by (rule ajax_settle_preserves [where P = "close_tracked n due"])
       (simp_all add: assms close_tracked_showNotification)
  with AjaxSettles show ?thesis by simp
next
  case (AddToCartSettles r)
  have "close_tracked n due (snd (addToCart_settle None r p))"
    by (rule addToCart_settle_preserves [where P = "close_tracked n due"])
       (simp_all add: assms close_tracked_showNotification close_tracked_updateCartBadge)
  with AddToCartSettles show ?thesis by simp
qed

lemma close_tracked_run: "close_tracked n due p \<Longrightarrow> close_tracked n due (run parsed evs p)"
  unfolding run_def by (induction evs arbitrary: p) (simp_all add: close_tracked_step)

lemma close_tracked_start:
  assumes "well_formed p"
  shows "close_tracked (next_id p) (now p + 5000) (showNotification m ty p)"
proof -
  from assms have "\<forall>d c. (d, c) \<in> set (timers p) \<longrightarrow> target c < next_id p"
    by (simp add: well_formed_def nodes_consistent_iff)
  then have "\<forall>d. (d, AutoClose (next_id p)) \<notin> set (timers p)"
    by fastforce
  then show ?thesis
    unfolding close_tracked_iff by (simp add: view_simps)
qed


















lemma notification_html_template:
  "notification_html msg = template_before @ msg @ template_after"
  by (simp add: notification_html_def template_before_def template_after_def)

lemma text_message_markup_notification_html:
  "CHR ''<'' \<notin> set msg \<Longrightarrow> text_message_markup (notification_html msg)"
  by (simp add: text_message_markup_def notification_html_template Let_def)









lemma count_list_distinct: "distinct xs \<Longrightarrow> count_list xs x = (if x \<in> set xs then 1 else 0)"
  by (induction xs) auto


text \<open>A page that has shown nothing yet is well-formed, and so is every page after it.\<close>

lemma well_formed_fresh:
  assumes "body_children p = []" and "toast_container p = None" and "timers p = []"
    and "remove_calls p = []"
  shows "well_formed (run parsed evs p)"
proof -
  from assms have "well_formed p"
    by (simp add: well_formed_def nodes_consistent_def timers_pending_def notification_ids_def
          toast_ids_def)
  then show ?thesis by (rule well_formed_run)
qed

lemma well_formed_page_with_cookie: "well_formed page_with_cookie"
  by (simp add: well_formed_def nodes_consistent_def timers_pending_def page_with_cookie_def
        notification_ids_def toast_ids_def)

lemma page_with_cookie_view:
  "next_id page_with_cookie = 0" "now page_with_cookie = 0" "timers page_with_cookie = []"
  "notification_ids page_with_cookie = []" "toast_ids page_with_cookie = []"
  "remove_calls page_with_cookie = []" "shown_toasts page_with_cookie = []"
  by (simp_all add: page_with_cookie_def notification_ids_def toast_ids_def)

section \<open>The cookie string and the token read from it\<close>

text \<open>
  \<^verbatim>\<open>document.cookie\<close> of a page whose cookies are \<open>jar\<close> is \<open>cookie_string jar\<close>: splitting it at
  \<^verbatim>\<open>'; '\<close> gives the entries back, and the first entry that starts with \<^verbatim>\<open>csrftoken=\<close> is the
  one of the first cookie named \<^verbatim>\<open>csrftoken\<close>.
\<close>

lemma split_from_skip:
  "s0 \<notin> set r \<Longrightarrow>
   split_from (s0 # srest) acc (r @ rest) = split_from (s0 # srest) (rev r @ acc) rest"
proof (induction r arbitrary: acc)
  case Nil
  then show ?case by simp
next
  case (Cons a r)
  then have "\<not> startsWith ((a # r) @ rest) (s0 # srest)"
    by (auto simp: startsWith_def)
  then have "split_from (s0 # srest) acc ((a # r) @ rest) =
             split_from (s0 # srest) (a # acc) (r @ rest)"
    by simp
  also have "\<dots> = split_from (s0 # srest) (rev r @ a # acc) rest"
    using Cons by simp
  finally show ?case by simp
qed

lemma split_from_sep:
  "sep \<noteq> [] \<Longrightarrow> split_from sep acc (sep @ rest) = rev acc # split_from sep [] rest"
  by (cases sep) (simp_all add: startsWith_def)

lemma split_join_entries:
  "\<forall>x \<in> set (r # rows). CHR '';'' \<notin> set x \<Longrightarrow>
   split_from ''; '' acc (join_entries (r # rows)) = (rev acc @ r) # rows"
proof (induction rows arbitrary: r acc)
  case Nil
  have "split_from ''; '' acc (r @ []) = split_from ''; '' (rev r @ acc) []"
    using Nil by (intro split_from_skip) simp
  then show ?case by simp
next
  case (Cons r' rs)
  have "split_from ''; '' acc (r @ (''; '' @ join_entries (r' # rs))) =
        split_from ''; '' (rev r @ acc) (''; '' @ join_entries (r' # rs))"
    using Cons.prems by (intro split_from_skip) simp
  also have "\<dots> = rev (rev r @ acc) # split_from ''; '' [] (join_entries (r' # rs))"
    by (rule split_from_sep) simp
  also have "split_from ''; '' [] (join_entries (r' # rs)) = (rev [] @ r') # rs"
    using Cons.prems by (intro Cons.IH) simp
  finally show ?case by simp
qed

lemma split_cookie_string:
  assumes "jar \<noteq> []" and "\<forall>(name, v) \<in> set jar. CHR '';'' \<notin> set name \<and> CHR '';'' \<notin> set v"
  shows "split_str (cookie_string jar) ''; '' = map cookie_entry jar"
proof -
  obtain kv rest where jar: "jar = kv # rest"
    using assms(1) by (cases jar) auto
  have "\<forall>x \<in> set (cookie_entry kv # map cookie_entry rest). CHR '';'' \<notin> set x"
    using assms(2) unfolding jar by (auto simp: cookie_entry_def)
  from split_join_entries [OF this, of "[]"] show ?thesis
    by (simp add: jar split_str_def cookie_string_def)
qed

lemma same_name:
  "c \<notin> set a \<Longrightarrow> c \<notin> set b \<Longrightarrow> a @ c # x = b @ c # y \<Longrightarrow> a = b"
proof (induction a arbitrary: b)
  case Nil
  then show ?case by (cases b) auto
next
  case (Cons h t)
  then show ?case by (cases b) auto
qed

lemma startsWithD: "startsWith s pre \<Longrightarrow> \<exists>rest. s = pre @ rest"
  unfolding startsWith_def by (metis append_take_drop_id)

lemma startsWith_cookie_entry:
  assumes "CHR ''='' \<notin> set name"
  shows "startsWith (cookie_entry (name, v)) ''csrftoken='' \<longleftrightarrow> name = ''csrftoken''"
proof
  assume "startsWith (cookie_entry (name, v)) ''csrftoken=''"
  then obtain rest where "cookie_entry (name, v) = ''csrftoken='' @ rest"
    using startsWithD by blast
  then have eq: "name @ CHR ''='' # v = ''csrftoken'' @ CHR ''='' # rest"
    by (simp add: cookie_entry_def)
  have "CHR ''='' \<notin> set ''csrftoken''" by simp
  from same_name [OF assms this eq] show "name = ''csrftoken''" .
next
  assume "name = ''csrftoken''"
  then show "startsWith (cookie_entry (name, v)) ''csrftoken=''"
    by (simp add: startsWith_def cookie_entry_def)
qed

lemma find_cookie_entry:
  "\<forall>(name, v) \<in> set jar. CHR ''='' \<notin> set name \<Longrightarrow>
   find (\<lambda>row. startsWith row ''csrftoken='') (map cookie_entry jar) =
     map_option (\<lambda>v. ''csrftoken='' @ v) (map_of jar ''csrftoken'')"
proof (induction jar)
  case Nil
  then show ?case by simp
next
  case (Cons kv jar)
  obtain name v where kv: "kv = (name, v)" by (cases kv)
  from Cons.prems kv have "CHR ''='' \<notin> set name" by simp
  note sw = startsWith_cookie_entry [OF this, of v]
  show ?case
  proof (cases "name = ''csrftoken''")
    case True
    with sw show ?thesis by (simp add: kv cookie_entry_def)
  next
    case False
    with sw Cons show ?thesis by (simp add: kv)
  qed
qed

lemma split_cookie_value:
  assumes "CHR ''='' \<notin> set t"
  shows "split_str (''csrftoken='' @ t) ''='' = [''csrftoken'', t]"
proof -
  have 1: "split_from ''='' [] (''csrftoken'' @ (''='' @ t)) =
           split_from ''='' (rev ''csrftoken'' @ []) (''='' @ t)"
    by (intro split_from_skip) simp
  have 2: "split_from ''='' (rev ''csrftoken'' @ []) (''='' @ t) =
           rev (rev ''csrftoken'' @ []) # split_from ''='' [] t"
    by (rule split_from_sep) simp
  have "split_from ''='' [] (t @ []) = split_from ''='' (rev t @ []) []"
    using assms by (intro split_from_skip) simp
  then have 3: "split_from ''='' [] t = [t]" by simp
  have "split_str (''csrftoken='' @ t) ''='' = split_from ''='' [] (''csrftoken'' @ (''='' @ t))"
    by (simp add: split_str_def)
  also note 1
  also note 2
  also note 3
  finally show ?thesis by simp
qed

lemma getCsrfToken_cookie:
  assumes "cookie p = cookie_string jar"
    and "\<forall>(name, v) \<in> set jar. CHR '';'' \<notin> set name \<and> CHR ''='' \<notin> set name \<and> CHR '';'' \<notin> set v"
    and "map_of jar ''csrftoken'' = Some t" and "CHR ''='' \<notin> set t"
  shows "getCsrfToken p = Some t"
proof -
  from assms(3) have ne: "jar \<noteq> []" by auto
  have a: "\<forall>(name, v) \<in> set jar. CHR '';'' \<notin> set name \<and> CHR '';'' \<notin> set v"
    and b: "\<forall>(name, v) \<in> set jar. CHR ''='' \<notin> set name"
    using assms(2) by auto
  have rows: "split_str (cookie p) ''; '' = map cookie_entry jar"
    unfolding assms(1) by (rule split_cookie_string [OF ne a])
  have found: "find (\<lambda>row. startsWith row ''csrftoken='') (map cookie_entry jar) =
               Some (''csrftoken='' @ t)"
    unfolding find_cookie_entry [OF b] assms(3) by simp
  show ?thesis
    unfolding getCsrfToken_def rows found option.case split_cookie_value [OF assms(4)]
    by simp
qed

lemma getCsrfToken_field:
  assumes "cookie p = cookie_string jar"
    and "\<forall>(name, v) \<in> set jar. CHR '';'' \<notin> set name \<and> CHR ''='' \<notin> set name \<and> CHR '';'' \<notin> set v"
    and "map_of jar ''csrftoken'' = None"
  shows "getCsrfToken p = csrf_field p"
proof -
  have found: "find (\<lambda>row. startsWith row ''csrftoken='') (split_str (cookie p) ''; '') = None"
  proof (cases "jar = []")
    case True
    then show ?thesis
      unfolding assms(1) by (simp add: cookie_string_def split_str_def startsWith_def)
  next
    case False
    have a: "\<forall>(name, v) \<in> set jar. CHR '';'' \<notin> set name \<and> CHR '';'' \<notin> set v"
      and b: "\<forall>(name, v) \<in> set jar. CHR ''='' \<notin> set name"
      using assms(2) by auto
    have rows: "split_str (cookie p) ''; '' = map cookie_entry jar"
      unfolding assms(1) by (rule split_cookie_string [OF False a])
    show ?thesis
      unfolding rows find_cookie_entry [OF b] assms(3) by simp
  qed
  show ?thesis
    unfolding getCsrfToken_def found by (simp split: option.splits)
qed

lemma cookie_page_with_cookie:
  "cookie page_with_cookie = cookie_string [(''sessionid'', ''xyz''), (''csrftoken'', ''abc123'')]"
  by (simp add: page_with_cookie_def cookie_string_def cookie_entry_def)

lemma cookie_page_with_field:
  "cookie page_with_field = cookie_string [(''sessionid'', ''xyz'')]"
  by (simp add: page_with_field_def cookie_string_def cookie_entry_def)

lemma jar_page_with_cookie:
  "\<forall>(name, v) \<in> set [(''sessionid'', ''xyz''), (''csrftoken'', ''abc123'')].
     CHR '';'' \<notin> set name \<and> CHR ''='' \<notin> set name \<and> CHR '';'' \<notin> set v"
  by simp

lemma jar_page_with_field:
  "\<forall>(name, v) \<in> set [(''sessionid'', ''xyz'')].
     CHR '';'' \<notin> set name \<and> CHR ''='' \<notin> set name \<and> CHR '';'' \<notin> set v"
  by simp

lemma csrf_field_page_with_field: "csrf_field page_with_field = Some ''tok42''"
  by (simp add: page_with_field_def)

section \<open>The CSRF token of a request (C1)\<close>

text \<open>
  C1, as the code has it. The cookies of the page are \<open>jar\<close> (no name or value with \<^verbatim>\<open>;\<close>, no
  name with \<^verbatim>\<open>=\<close>). The token is attached for a method whose upper case is \<^verbatim>\<open>POST\<close> only. Then
  the request that \<^verbatim>\<open>ajax\<close> hands to \<^verbatim>\<open>fetch\<close> carries as the header \<^verbatim>\<open>X-CSRFToken\<close> the value of
  the (first) \<^verbatim>\<open>csrftoken\<close> cookie, when that value is not empty and has no \<^verbatim>\<open>=\<close>; and, when
  there is no \<^verbatim>\<open>csrftoken\<close> cookie, the value of the hidden field, when that is not empty. For
  a method whose upper case is \<^verbatim>\<open>PUT\<close>, \<^verbatim>\<open>PATCH\<close> or \<^verbatim>\<open>DELETE\<close> the headers are those of the
  caller, or the default ones: \<^verbatim>\<open>ajax\<close> adds no token.
\<close>

theorem ajax_post_carries_csrf_token:
  assumes m: "opt_method options = Some m"
    and c: "cookie p = cookie_string jar"
    and j: "\<forall>(name, v) \<in> set jar.
              CHR '';'' \<notin> set name \<and> CHR ''='' \<notin> set name \<and> CHR '';'' \<notin> set v"
  shows "(toUpperCase m = ''POST'' \<and> map_of jar ''csrftoken'' = Some t \<and> t \<noteq> [] \<and>
          CHR ''='' \<notin> set t \<longrightarrow>
            req_headers (ajax_request u options p) ''X-CSRFToken'' = Some t) \<and>
         (toUpperCase m = ''POST'' \<and> map_of jar ''csrftoken'' = None \<and>
          csrf_field p = Some t \<and> t \<noteq> [] \<longrightarrow>
            req_headers (ajax_request u options p) ''X-CSRFToken'' = Some t) \<and>
         (toUpperCase m = ''PUT'' \<or> toUpperCase m = ''PATCH'' \<or> toUpperCase m = ''DELETE'' \<longrightarrow>
            req_headers (ajax_request u options p) =
              (case opt_headers options of None \<Rightarrow> defaultHeaders | Some h \<Rightarrow> h))"
proof (intro conjI impI)
  assume a: "toUpperCase m = ''POST'' \<and> map_of jar ''csrftoken'' = Some t \<and> t \<noteq> [] \<and>
             CHR ''='' \<notin> set t"
  then have "getCsrfToken p = Some t"
    using getCsrfToken_cookie [OF c j] by blast
  with a m show "req_headers (ajax_request u options p) ''X-CSRFToken'' = Some t"
    by (simp add: ajax_request_def)
next
  assume b: "toUpperCase m = ''POST'' \<and> map_of jar ''csrftoken'' = None \<and>
             csrf_field p = Some t \<and> t \<noteq> []"
  then have "getCsrfToken p = Some t"
    using getCsrfToken_field [OF c j] by simp
  with b m show "req_headers (ajax_request u options p) ''X-CSRFToken'' = Some t"
    by (simp add: ajax_request_def)
next
  assume "toUpperCase m = ''PUT'' \<or> toUpperCase m = ''PATCH'' \<or> toUpperCase m = ''DELETE''"
  with m show "req_headers (ajax_request u options p) =
                 (case opt_headers options of None \<Rightarrow> defaultHeaders | Some h \<Rightarrow> h)"
    by (auto simp: ajax_request_def)
qed

theorem ajax_post_carries_csrf_token_witness:
  "cookie page_with_cookie = cookie_string [(''sessionid'', ''xyz''), (''csrftoken'', ''abc123'')] \<and>
   toUpperCase ''post'' = ''POST'' \<and>
   req_headers
     (ajax_request ''/cart/clear/''
        \<lparr>opt_method = Some ''post'', opt_headers = None, opt_body = None\<rparr> page_with_cookie)
     ''X-CSRFToken'' = Some ''abc123'' \<and>
   cookie page_with_field = cookie_string [(''sessionid'', ''xyz'')] \<and>
   csrf_field page_with_field = Some ''tok42'' \<and>
   req_headers
     (ajax_request ''/cart/clear/''
        \<lparr>opt_method = Some ''post'', opt_headers = None, opt_body = None\<rparr> page_with_field)
     ''X-CSRFToken'' = Some ''tok42'' \<and>
   req_headers
     (ajax_request ''/cart/item/7/''
        \<lparr>opt_method = Some ''DELETE'', opt_headers = None, opt_body = None\<rparr> page_with_cookie) =
     defaultHeaders"
  using toUpperCase_post toUpperCase_delete cookie_page_with_cookie cookie_page_with_field
    csrf_field_page_with_field
    ajax_post_carries_csrf_token
      [OF _ cookie_page_with_cookie jar_page_with_cookie,
       where options = "\<lparr>opt_method = Some ''post'', opt_headers = None, opt_body = None\<rparr>"
         and m = "''post''" and t = "''abc123''" and u = "''/cart/clear/''"]
    ajax_post_carries_csrf_token
      [OF _ cookie_page_with_field jar_page_with_field,
       where options = "\<lparr>opt_method = Some ''post'', opt_headers = None, opt_body = None\<rparr>"
         and m = "''post''" and t = "''tok42''" and u = "''/cart/clear/''"]
    ajax_post_carries_csrf_token
      [OF _ cookie_page_with_cookie jar_page_with_cookie,
       where options = "\<lparr>opt_method = Some ''DELETE'', opt_headers = None, opt_body = None\<rparr>"
         and m = "''DELETE''" and t = "''abc123''" and u = "''/cart/item/7/''"]
  by simp

text \<open>
  C1 as the spec states it fails. A \<^verbatim>\<open>PUT\<close> on a page whose cookie holds the token \<^verbatim>\<open>abc123\<close> is
  sent without the header. A \<^verbatim>\<open>POST\<close> on a page whose \<^verbatim>\<open>csrftoken\<close> cookie is empty and whose
  hidden field holds the token \<^verbatim>\<open>tok42\<close> is sent without the header too. A \<^verbatim>\<open>POST\<close> on a page
  whose cookie holds the token \<^verbatim>\<open>YWJj=\<close> carries \<^verbatim>\<open>YWJj\<close>, which is not that token.
\<close>

theorem ajax_csrf_token_absent_or_cut:
  "cookie page_with_cookie = ''sessionid=xyz; csrftoken=abc123'' \<and>
   req_method
     (ajax_request ''/cart/item/7/''
        \<lparr>opt_method = Some ''PUT'', opt_headers = None, opt_body = None\<rparr> page_with_cookie) = ''PUT'' \<and>
   req_headers
     (ajax_request ''/cart/item/7/''
        \<lparr>opt_method = Some ''PUT'', opt_headers = None, opt_body = None\<rparr> page_with_cookie)
     ''X-CSRFToken'' = None \<and>
   cookie page_with_empty_cookie = ''sessionid=xyz; csrftoken='' \<and>
   csrf_field page_with_empty_cookie = Some ''tok42'' \<and>
   req_headers
     (ajax_request ''/cart/clear/''
        \<lparr>opt_method = Some ''POST'', opt_headers = None, opt_body = None\<rparr> page_with_empty_cookie)
     ''X-CSRFToken'' = None \<and>
   cookie page_with_padded_cookie = ''csrftoken=YWJj=; sessionid=xyz'' \<and>
   req_headers
     (ajax_request ''/cart/clear/''
        \<lparr>opt_method = Some ''POST'', opt_headers = None, opt_body = None\<rparr> page_with_padded_cookie)
     ''X-CSRFToken'' = Some ''YWJj''"
  by code_simp

section \<open>The default header of a request (C2)\<close>

text \<open>
  C2 at the call \<^verbatim>\<open>Utils.addToCart(42, 1)\<close>: the headers of \<^verbatim>\<open>addToCart\<close> take the place of the
  default ones, so the request has \<^verbatim>\<open>Content-Type\<close> and \<^verbatim>\<open>X-CSRFToken\<close> and no
  \<^verbatim>\<open>X-Requested-With\<close>; a call without headers of its own (here a \<^verbatim>\<open>POST\<close> with no other
  option) has it.
\<close>

theorem addToCart_request_lacks_requested_with:
  "req_headers (addToCart_request (JNum 42) (JNum 1) page_with_cookie) ''X-Requested-With'' = None \<and>
   req_headers (addToCart_request (JNum 42) (JNum 1) page_with_cookie) ''Content-Type'' =
     Some ''application/json'' \<and>
   req_headers (addToCart_request (JNum 42) (JNum 1) page_with_cookie) ''X-CSRFToken'' =
     Some ''abc123'' \<and>
   req_headers
     (ajax_request ''/orders/1/status/''
        \<lparr>opt_method = Some ''POST'', opt_headers = None, opt_body = None\<rparr> page_with_cookie)
     ''X-Requested-With'' = Some ''XMLHttpRequest''"
  by code_simp

section \<open>Failures of a request (C3, C9)\<close>

text \<open>
  C3. When the network call fails, the status is not ok or the body is not JSON, the
  promise of \<^verbatim>\<open>ajax\<close> rejects with the error of that failure, and the page it leaves differs
  from the page before by one new notification of class \<^verbatim>\<open>error\<close> (with its timer).
\<close>

theorem ajax_failure_notifies_once_and_rejects:
  assumes "transport_failure r"
  shows "\<exists>error. ajax_then r = Inl error \<and>
           ajax_settle r p =
             (Rejected error,
              p\<lparr>body_children :=
                  body_children p @ [error_notification (next_id p) msg_request_failed],
                timers := timers p @ [(now p + 5000, AutoClose (next_id p))],
                next_id := Suc (next_id p)\<rparr>)"
proof -
  from assms obtain e where "ajax_then r = Inl e"
    by (auto simp: transport_failure_iff)
  then show ?thesis
    by (simp add: ajax_settle_rejected showNotification_error)
qed

theorem ajax_failure_notifies_once_and_rejects_witness:
  "transport_failure answer_server_error \<and>
   fst (ajax_settle answer_server_error page_with_cookie) = Rejected (HTTPError 500) \<and>
   map className (body_children (snd (ajax_settle answer_server_error page_with_cookie))) =
     [''notification error'']"
  using transport_failure_answer_server_error ajax_then_answer_server_error
    ajax_failure_notifies_once_and_rejects
      [OF transport_failure_answer_server_error, of page_with_cookie]
  by (auto simp: page_with_cookie_def error_notification_def)

text \<open>
  C9. On such a failure \<^verbatim>\<open>addToCart\<close> leaves two new error notifications, the one of \<^verbatim>\<open>ajax\<close>
  and then its own; after them the callback, if there is one, is called with \<^verbatim>\<open>false\<close>, and
  the promise rejects (with the error of the failure, unless the callback throws).
\<close>

theorem addToCart_transport_failure_notifies_twice:
  assumes "transport_failure r"
  shows "\<exists>error. ajax_then r = Inl error \<and>
           addToCart_settle callback r p =
             (let p2 = p\<lparr>body_children := body_children p @
                           [error_notification (next_id p) msg_request_failed,
                            error_notification (Suc (next_id p)) msg_add_failed_retry],
                         timers := timers p @
                           [(now p + 5000, AutoClose (next_id p)),
                            (now p + 5000, AutoClose (Suc (next_id p)))],
                         next_id := Suc (Suc (next_id p))\<rparr>
              in case callback of
                   None \<Rightarrow> (Rejected error, p2)
                 | Some cb \<Rightarrow>
                     (case cb (JBool False) p2 of
                        (Some e, p3) \<Rightarrow> (Rejected e, p3)
                      | (None, p3) \<Rightarrow> (Rejected error, p3)))"
proof -
  from assms obtain error where e: "ajax_then r = Inl error"
    by (auto simp: transport_failure_iff)
  show ?thesis
    using e
    by (cases callback)
       (simp_all add: addToCart_settle_def addToCart_catch_def ajax_settle_rejected
          showNotification_error Let_def)
qed

theorem addToCart_transport_failure_notifies_twice_witness:
  "transport_failure answer_server_error \<and>
   fst (addToCart_settle None answer_server_error page_with_cookie) = Rejected (HTTPError 500) \<and>
   map className
     (body_children (snd (addToCart_settle None answer_server_error page_with_cookie))) =
     [''notification error'', ''notification error'']"
  using transport_failure_answer_server_error ajax_then_answer_server_error
    addToCart_transport_failure_notifies_twice
      [OF transport_failure_answer_server_error, of None page_with_cookie]
  by (auto simp: page_with_cookie_def error_notification_def)

section \<open>Answers to addToCart (C5, C6, C7)\<close>

text \<open>
  C5, as the code has it. When the answer is a JSON value whose \<^verbatim>\<open>success\<close> is truthy and
  whose \<^verbatim>\<open>cart_count\<close> is the safe integer \<open>n\<close>, the cart badge (if the page has one) is set to
  show \<open>n\<close>, the count of the server, visible when \<open>n\<close> is positive and hidden otherwise; what
  it showed before is not read. One success notification is appended; then the callback, if there is one,
  is called with \<^verbatim>\<open>success\<close>.
\<close>

theorem addToCart_success_sets_badge_and_notifies:
  assumes "ajax_then r = Inr response"
    and "get_prop response ''success'' = Inr success" and "truthy success"
    and "read_prop response ''cart_count'' = JNum n" and "safe_integer n"
  shows "addToCart_settle callback r p =
           (let p1 = p\<lparr>cart_badge :=
                         map_option (\<lambda>b. b\<lparr>textContent := show_int n,
                                             display := (if 0 < n then ''inline'' else ''none'')\<rparr>)
                           (cart_badge p),
                       body_children :=
                         body_children p @ [success_notification (next_id p) msg_added],
                       timers := timers p @ [(now p + 5000, AutoClose (next_id p))],
                       next_id := Suc (next_id p)\<rparr>
            in case callback of
                 None \<Rightarrow> (Fulfilled response, p1)
               | Some cb \<Rightarrow>
                   (case cb success p1 of
                      (None, p2) \<Rightarrow> (Fulfilled response, p2)
                    | (Some e, p2) \<Rightarrow> addToCart_catch callback e p2))"
  using assms
  by (cases callback)
     (auto simp: addToCart_settle_def ajax_settle_fulfilled addToCart_then_def
        showNotification_success updateCartBadge_num Let_def
        split: prod.splits option.splits)

theorem addToCart_success_sets_badge_and_notifies_witness:
  "ajax_then answer_added = Inr (JObj [(''success'', JBool True), (''cart_count'', JNum 5)]) \<and>
   truthy (JBool True) \<and> safe_integer 5 \<and>
   map_option textContent
     (cart_badge (snd (addToCart_settle None answer_added page_with_cookie))) = Some ''5'' \<and>
   map className (body_children (snd (addToCart_settle None answer_added page_with_cookie))) =
     [''notification success'']"
  using ajax_then_answer_added
    addToCart_success_sets_badge_and_notifies
      [OF ajax_then_answer_added, of "JBool True" 5 None page_with_cookie]
  by (simp add: read_prop_def page_with_cookie_def success_notification_def show_int_5
        safe_integer_def)

text \<open>
  C5 as the spec states it fails: a badge that shows 2 shows 5 after the answer
  \<^verbatim>\<open>{success: true, cart_count: 5}\<close>, not 3.
\<close>

theorem addToCart_badge_not_incremented:
  "map_option textContent (cart_badge page_with_cookie) = Some ''2'' \<and>
   map_option textContent
     (cart_badge (snd (addToCart_settle None answer_added page_with_cookie))) = Some ''5'' \<and>
   map_option textContent
     (cart_badge (snd (addToCart_settle None answer_added page_with_cookie))) \<noteq> Some ''3''"
  by code_simp

text \<open>
  C6. \<^verbatim>\<open>addToCart(42, 1)\<close>, answered with \<^verbatim>\<open>{success: true, cart_count: 5}\<close> on a page with a
  cart badge: the badge shows \<^verbatim>\<open>5\<close> and is visible, and one success notification is
  appended.
\<close>

theorem addToCart_42_shows_5:
  assumes "ajax_then (network (addToCart_request (JNum 42) (JNum 1) p)) =
             Inr (JObj [(''success'', JBool True), (''cart_count'', JNum 5)])"
    and "cart_badge p = Some b"
  shows "addToCart network (JNum 42) (JNum 1) None p =
           (Fulfilled (JObj [(''success'', JBool True), (''cart_count'', JNum 5)]),
            p\<lparr>cart_badge := Some (b\<lparr>textContent := ''5'', display := ''inline''\<rparr>),
              body_children := body_children p @ [success_notification (next_id p) msg_added],
              timers := timers p @ [(now p + 5000, AutoClose (next_id p))],
              next_id := Suc (next_id p)\<rparr>)"
  using assms
  by (simp add: addToCart_def addToCart_settle_def ajax_settle_fulfilled addToCart_then_def
        showNotification_success updateCartBadge_num read_prop_def show_int_5 Let_def)

theorem addToCart_42_shows_5_witness:
  "cart_badge page_with_cookie = Some \<lparr>textContent = ''2'', display = ''inline''\<rparr> \<and>
   cart_badge (snd (addToCart (\<lambda>request. answer_added) (JNum 42) (JNum 1) None page_with_cookie)) =
     Some \<lparr>textContent = ''5'', display = ''inline''\<rparr> \<and>
   map className
     (body_children
        (snd (addToCart (\<lambda>request. answer_added) (JNum 42) (JNum 1) None page_with_cookie))) =
     [''notification success'']"
  using addToCart_42_shows_5
      [of "\<lambda>request. answer_added" page_with_cookie "\<lparr>textContent = ''2'', display = ''inline''\<rparr>",
       OF ajax_then_answer_added]
  by (simp add: page_with_cookie_def success_notification_def)

text \<open>
  C7. \<^verbatim>\<open>addToCart\<close>, answered with \<^verbatim>\<open>{success: false, error: "out of stock"}\<close>: one error
  notification is appended, whose markup holds the text \<^verbatim>\<open>out of stock\<close>, and the cart
  badge is as it was.
\<close>

theorem addToCart_out_of_stock:
  assumes "ajax_then r =
             Inr (JObj [(''success'', JBool False), (''error'', JStr ''out of stock'')])"
  shows "addToCart_settle None r p =
           (Fulfilled (JObj [(''success'', JBool False), (''error'', JStr ''out of stock'')]),
            p\<lparr>body_children := body_children p @ [error_notification (next_id p) ''out of stock''],
              timers := timers p @ [(now p + 5000, AutoClose (next_id p))],
              next_id := Suc (next_id p)\<rparr>) \<and>
         cart_badge (snd (addToCart_settle None r p)) = cart_badge p \<and>
         (\<exists>pre post. innerHTML (error_notification (next_id p) ''out of stock'') =
                        pre @ ''out of stock'' @ post)"
proof -
  have "\<exists>pre post. notification_html ''out of stock'' = pre @ ''out of stock'' @ post"
    unfolding notification_html_def by (metis append.assoc)
  then show ?thesis
    using assms
    by (simp add: addToCart_settle_def ajax_settle_fulfilled addToCart_then_def
        showNotification_error read_prop_def js_or_def error_notification_def Let_def)
qed

theorem addToCart_out_of_stock_witness:
  "ajax_then answer_out_of_stock =
     Inr (JObj [(''success'', JBool False), (''error'', JStr ''out of stock'')]) \<and>
   map className
     (body_children (snd (addToCart_settle None answer_out_of_stock page_with_cookie))) =
     [''notification error''] \<and>
   cart_badge (snd (addToCart_settle None answer_out_of_stock page_with_cookie)) =
     cart_badge page_with_cookie"
  using ajax_then_answer_out_of_stock
    addToCart_out_of_stock [OF ajax_then_answer_out_of_stock, of page_with_cookie]
  by (simp add: page_with_cookie_def error_notification_def)

section \<open>Removal of notifications (C4, C8)\<close>


lemma click_close_first_notification:
  assumes "body_children p = []" and "parsed (notification_html (to_string m))"
  shows "click_close parsed (next_id p) (showNotification m ty p) =
           remove_notification (next_id p) (showNotification m ty p)"
  using assms by (simp add: click_close_def showNotification_def Let_def)

lemma body_children_page_with_cookie: "body_children page_with_cookie = []"
  by (simp add: page_with_cookie_def)

lemma text_message_markup_Saved: "text_message_markup (notification_html (to_string (JStr ''Saved'')))"
  by (rule text_message_markup_notification_html) simp

lemma click_close_Saved:
  "click_close text_message_markup 0 (showNotification (JStr ''Saved'') JUndefined page_with_cookie) =
     remove_notification 0 (showNotification (JStr ''Saved'') JUndefined page_with_cookie)"
  using click_close_first_notification
      [where parsed = text_message_markup and p = page_with_cookie and m = "JStr ''Saved''"
         and ty = JUndefined]
    body_children_page_with_cookie text_message_markup_Saved
  by (simp only: page_with_cookie_view)

text \<open>
  C4, as the code has it. Every notification is removed once: in every course of events
  after \<^verbatim>\<open>showNotification\<close> on a well-formed page, no node has two calls of \<^verbatim>\<open>remove()\<close>, and
  the new notification has none while it is on the page and one when it is off. A manual
  close does not cancel the timer: it stays pending until its 5000 ms have passed,
  and its callback, which tests \<^verbatim>\<open>notification.parentElement\<close>, leaves a node that is off the
  page alone.
\<close>

theorem dismissed_notification_removed_once:
  assumes "well_formed p"
  shows "let n = next_id p; p' = run parsed evs (showNotification m ty p) in
           distinct (remove_calls p') \<and>
           count_list (remove_calls p') n = (if n \<in> set (notification_ids p') then 0 else 1) \<and>
           (now p' < now p + 5000 \<longrightarrow> (now p + 5000, AutoClose n) \<in> set (timers p'))"
proof -
  let ?n = "next_id p"
  let ?p' = "run parsed evs (showNotification m ty p)"
  have wf: "well_formed ?p'"
    using assms by (simp add: well_formed_run well_formed_showNotification)
  have ct: "close_tracked ?n (now p + 5000) ?p'"
    using assms by (simp add: close_tracked_run close_tracked_start)
  from wf have d: "distinct (remove_calls ?p')"
    and disj: "set (notification_ids ?p') \<inter> set (remove_calls ?p') = {}"
    by (simp_all add: well_formed_def nodes_consistent_iff)
  have cnt: "count_list (remove_calls ?p') ?n = (if ?n \<in> set (notification_ids ?p') then 0 else 1)"
    using close_trackedD(2) [OF ct] disj by (auto simp: count_list_distinct [OF d])
  have pend: "now ?p' < now p + 5000 \<longrightarrow> (now p + 5000, AutoClose ?n) \<in> set (timers ?p')"
    using close_trackedD(3) [OF ct] by blast
  from d cnt pend show ?thesis
    by (simp only: Let_def)
qed

theorem dismissed_notification_removed_once_witness:
  "well_formed page_with_cookie \<and>
   notification_ids
     (run text_message_markup [ClickClose 0]
        (showNotification (JStr ''Saved'') JUndefined page_with_cookie)) = [] \<and>
   count_list
     (remove_calls
        (run text_message_markup [ClickClose 0]
           (showNotification (JStr ''Saved'') JUndefined page_with_cookie))) 0 = 1 \<and>
   (5000, AutoClose 0) \<in>
     set (timers
            (run text_message_markup [ClickClose 0]
               (showNotification (JStr ''Saved'') JUndefined page_with_cookie)))"
  using well_formed_page_with_cookie
    dismissed_notification_removed_once
      [OF well_formed_page_with_cookie, of text_message_markup "[ClickClose 0]" "JStr ''Saved''"
         JUndefined]
  by (simp add: Let_def run_def click_close_Saved view_simps page_with_cookie_view)

text \<open>
  C4 as the spec states it fails: after a manual close of the notification, its timer is
  still pending.
\<close>

theorem dismissed_notification_timer_still_pending:
  "notification_ids
     (run text_message_markup [ClickClose 0]
        (showNotification (JStr ''Saved'') JUndefined page_with_cookie)) = [] \<and>
   remove_calls
     (run text_message_markup [ClickClose 0]
        (showNotification (JStr ''Saved'') JUndefined page_with_cookie)) = [0] \<and>
   timers
     (run text_message_markup [ClickClose 0]
        (showNotification (JStr ''Saved'') JUndefined page_with_cookie)) =
     [(5000, AutoClose 0)]"
  by (simp add: run_def click_close_Saved view_simps page_with_cookie_view)




section \<open>The markup of a notification\<close>

text \<open>
  Both renderers put the string of the message into the markup as it is, between the
  fixed parts of the template: nothing is escaped. What tree the browser parses from
  that markup, and so what text the node shows, is decided by the HTML parser of the
  browser.
\<close>

lemma notification_html_verbatim: "\<exists>pre post. \<forall>s. notification_html s = pre @ s @ post"
  unfolding notification_html_def by (metis append.assoc)

lemma toast_html_verbatim: "\<exists>pre post. \<forall>s. toast_html e s = pre @ s @ post"
  unfolding toast_html_def by (metis append.assoc)

lemma showNotification_markup:
  "innerHTML (last (body_children (showNotification m ty p))) = notification_html (to_string m)"
  by (simp add: showNotification_def Let_def)

lemma showToast_markup:
  "\<exists>emoji. map_option (\<lambda>ts. innerHTML (last ts)) (toast_container (showToast m ty p)) =
            Some (toast_html emoji (to_string m))"
  by (cases "toast_container p")
     (auto simp: showToast_def createToastContainer_def Let_def)

end
